theory Spec2Isabelle
  imports Main "HOL-Library.Monad_Syntax"
begin

section \<open>Go strings and formatting\<close>

text \<open>
  A Go string is a sequence of bytes, as \<^typ>\<open>string\<close> is; \<open>len\<close> is
  \<^const>\<open>length\<close>.  \<open>fmt.Fprintln\<close> writes its operands separated by
  single spaces and ends the line.
\<close>

definition NL :: string where
  "NL = [CHR 0x0A]"

fun joinSp :: "string list \<Rightarrow> string" where
  "joinSp [] = []"
| "joinSp [x] = x"
| "joinSp (x # y # ys) = x @ '' '' @ joinSp (y # ys)"

definition Sprintln :: "string list \<Rightarrow> string" where
  "Sprintln operands = joinSp operands @ NL"

text \<open>\<open>strings.Repeat(" ", count)\<close>, for the counts the program passes (never negative).\<close>

definition spaces :: "nat \<Rightarrow> string" where
  "spaces count = replicate count (CHR '' '')"

definition TrimPrefix :: "string \<Rightarrow> string \<Rightarrow> string" where
  "TrimPrefix s p = (if take (length p) s = p then drop (length p) s else s)"

text \<open>\<open>bytes.Contains\<close>: some position of \<open>s\<close> starts a copy of \<open>sub\<close>.\<close>

definition Contains :: "string \<Rightarrow> string \<Rightarrow> bool" where
  "Contains s sub = list_ex (\<lambda>i. take (length sub) (drop i s) = sub) [0..<Suc (length s)]"

text \<open>\<open>strconv.Itoa\<close>, which prints the width flag's value.\<close>

fun natStr :: "nat \<Rightarrow> string" where
  "natStr n = (if n < 10 then [char_of (48 + n)] else natStr (n div 10) @ [char_of (48 + n mod 10)])"

declare natStr.simps [simp del]

definition Itoa :: "int \<Rightarrow> string" where
  "Itoa i = (if i < 0 then ''-'' @ natStr (nat (- i)) else natStr (nat i))"

subsection \<open>UTF-8\<close>

definition RuneError :: nat where
  "RuneError = 0xFFFD"

definition contByte :: "nat \<Rightarrow> nat \<Rightarrow> char \<Rightarrow> bool" where
  "contByte lo hi c = (lo \<le> (of_char c :: nat) \<and> (of_char c :: nat) \<le> hi)"

text \<open>
  \<open>utf8.DecodeRuneInString\<close>: the first rune of the string and its width in bytes;
  \<open>(RuneError, 0)\<close> for the empty string and \<open>(RuneError, 1)\<close> where the
  encoding is invalid.  The accepted range of the second byte depends on the first.
\<close>

fun DecodeRuneInString :: "string \<Rightarrow> nat \<times> nat" where
  "DecodeRuneInString [] = (RuneError, 0)"
| "DecodeRuneInString (c0 # rest) =
     (let s0 = (of_char c0 :: nat) in
      if s0 < 0x80 then (s0, 1)
      else if s0 < 0xC2 \<or> 0xF4 < s0 then (RuneError, 1)
      else if s0 < 0xE0 then
        (case rest of
           c1 # _ \<Rightarrow>
             if contByte 0x80 0xBF c1 then ((s0 mod 32) * 64 + of_char c1 mod 64, 2)
             else (RuneError, 1)
         | _ \<Rightarrow> (RuneError, 1))
      else if s0 < 0xF0 then
        (case rest of
           c1 # c2 # _ \<Rightarrow>
             if \<not> contByte (if s0 = 0xE0 then 0xA0 else 0x80) (if s0 = 0xED then 0x9F else 0xBF) c1
             then (RuneError, 1)
             else if \<not> contByte 0x80 0xBF c2 then (RuneError, 1)
             else ((s0 mod 16) * 4096 + (of_char c1 mod 64) * 64 + of_char c2 mod 64, 3)
         | _ \<Rightarrow> (RuneError, 1))
      else
        (case rest of
           c1 # c2 # c3 # _ \<Rightarrow>
             if \<not> contByte (if s0 = 0xF0 then 0x90 else 0x80) (if s0 = 0xF4 then 0x8F else 0xBF) c1
             then (RuneError, 1)
             else if \<not> contByte 0x80 0xBF c2 then (RuneError, 1)
             else if \<not> contByte 0x80 0xBF c3 then (RuneError, 1)
             else ((s0 mod 8) * 262144 + (of_char c1 mod 64) * 4096
                   + (of_char c2 mod 64) * 64 + of_char c3 mod 64, 4)
         | _ \<Rightarrow> (RuneError, 1)))"

text \<open>
  The conversion \<open>string(r)\<close> of a rune: its UTF-8 encoding, and the encoding of
  \<open>RuneError\<close> for a surrogate or a value beyond the last code point.
\<close>

definition runeString :: "nat \<Rightarrow> string" where
  "runeString r =
     (if r < 0x80 then [char_of r]
      else if r < 0x800 then [char_of (0xC0 + r div 64), char_of (0x80 + r mod 64)]
      else if (0xD800 \<le> r \<and> r \<le> 0xDFFF) \<or> 0x10FFFF < r then [char_of (0xEF :: nat), char_of (0xBF :: nat), char_of (0xBD :: nat)]
      else if r < 0x10000 then
        [char_of (0xE0 + r div 4096), char_of (0x80 + (r div 64) mod 64), char_of (0x80 + r mod 64)]
      else
        [char_of (0xF0 + r div 262144), char_of (0x80 + (r div 4096) mod 64),
         char_of (0x80 + (r div 64) mod 64), char_of (0x80 + r mod 64)])"

text \<open>
  \<open>utf8.ValidRune\<close>: the code points that have an encoding of their own, which are
  those outside the surrogate range and not beyond the last code point.
\<close>

definition validRune :: "nat \<Rightarrow> bool" where
  "validRune r = (r < 0xD800 \<or> (0xDFFF < r \<and> r \<le> 0x10FFFF))"

text \<open>
  \<open>utf8.RuneCountInString\<close>: every decoding step, valid or not, is one rune.
\<close>

fun RuneCountInString :: "string \<Rightarrow> nat" where
  "RuneCountInString [] = 0"
| "RuneCountInString (c # cs) = Suc (RuneCountInString (drop (snd (DecodeRuneInString (c # cs)) - 1) cs))"

text \<open>
  The verb \<open>%-*s\<close> of \<open>fmt\<close> with the width \<open>wid\<close> as an argument.  The string is
  padded with spaces on the right up to the width, counted in runes.  A width above
  1000000 is refused (\<open>tooLarge\<close> in \<open>fmt\<close>): the text \<open>%!(BADWIDTH)\<close> is
  written in its place and the string follows without padding.
\<close>

definition tooLarge :: "nat \<Rightarrow> bool" where
  "tooLarge x = (1000000 < x)"

definition badWidthString :: string where
  "badWidthString = ''%!(BADWIDTH)''"

definition padRight :: "nat \<Rightarrow> string \<Rightarrow> string" where
  "padRight wid s =
     (if tooLarge wid then badWidthString @ s else s @ spaces (wid - RuneCountInString s))"

text \<open>\<open>fmt.Sprintf("%-[1]*[2]s %[3]s", wid, name, short)\<close>.\<close>

definition SprintfRow :: "nat \<Rightarrow> string \<Rightarrow> string \<Rightarrow> string" where
  "SprintfRow wid name short = padRight wid name @ '' '' @ short"

section \<open>Data model\<close>

text \<open>
  A \<open>flag.Flag\<close> as the help code reads it: \<open>f.Name\<close>, \<open>f.Usage\<close>,
  \<open>f.Value.String()\<close> and \<open>f.DefValue\<close>.  A \<open>flag.FlagSet\<close> is the list of its
  flags in the order \<open>VisitAll\<close> visits them (sorted by name).
\<close>

record flag =
  flag_Name :: string
  flag_Usage :: string
  flag_Value :: string
  flag_DefValue :: string

record topic =
  topic_Name :: string
  topic_Short :: string
  topic_Long :: string

text \<open>
  The help code only asks whether \<open>cmd.Runner\<close> is nil; the synthesized help command
  carries the \<open>helpRunner\<close>.
\<close>

datatype runner = AppRunner | HelpRunner

datatype command = Command
  (Name: string) (Short: string) (Long: string) (Flags: "flag list")
  (ArgsName: string) (ArgsLong: string) (LookPath: bool)
  (Children: "command list") (Topics: "topic list") (Runner: "runner option")

datatype style = styleCompact | styleFull | styleGoDoc | styleShort

text \<open>
  The \<open>io.Writer\<close>s the code passes around: the streams of the process and the local
  \<open>bytes.Buffer\<close> that captures the output of a child process.
\<close>

datatype writer = OsStdout | OsStderr | Buffer

record Env =
  Stdout :: writer
  Stderr :: writer
  Vars :: "string \<rightharpoonup> string"

record helpConfig =
  env :: Env
  style :: style
  width :: int

text \<open>
  A regular expression is its \<open>MatchString\<close> predicate.  The package variables are
  \<open>globalFlags\<close> and \<open>nonHiddenGlobalFlags\<close>; for the latter \<open>None\<close> is the nil
  slice, which the code tells apart from the empty one.
\<close>

type_synonym regexp = "string \<Rightarrow> bool"

record globals =
  globalFlags :: "flag list"
  nonHiddenGlobalFlags :: "regexp list option"

text \<open>
  What running a child process gives: the error of \<open>Run\<close> (\<open>None\<close> is nil) and the
  chunks it wrote, each on its standard output or its standard error.
\<close>

datatype fd = FdStdout | FdStderr

datatype error = ExecError string | ErrUsage string

record proc =
  proc_err :: "error option"
  proc_out :: "(fd \<times> string) list"

text \<open>
  The collaborators whose code is outside \<open>help.go\<close>, as parameters: \<open>pathName\<close>,
  the methods \<open>prefix\<close>, \<open>firstCall\<close> and \<open>pathDirs\<close> of the environment,
  \<open>lookPath\<close> and \<open>lookPathAll\<close>, \<open>cmd.subNames()\<close>, \<open>binaryRunner{subCmd,
  cmdPath}.Run(env, args)\<close>, \<open>cleanTree\<close>, \<open>style.String()\<close>, the constant
  \<open>defaultWidth\<close>, and of the Go library \<open>doc.ToHTML\<close> (with no word map), the case
  table behind \<open>unicode.ToUpper\<close> beyond ASCII, and the verb \<open>%q\<close> of \<open>fmt\<close>.
\<close>

record extern =
  pathName :: "string \<Rightarrow> command list \<Rightarrow> string"
  prefix :: "Env \<Rightarrow> string"
  firstCall :: "Env \<Rightarrow> bool"
  pathDirs :: "Env \<Rightarrow> string list"
  lookPath :: "string \<Rightarrow> string list \<Rightarrow> bool"
  lookPathAll :: "string \<Rightarrow> string list \<Rightarrow> string list \<Rightarrow> string list"
  subNames :: "command \<Rightarrow> string list"
  runBinary :: "string \<Rightarrow> string \<Rightarrow> Env \<Rightarrow> string list \<Rightarrow> proc"
  cleanTree :: "command \<Rightarrow> command"
  styleString :: "style \<Rightarrow> string"
  defaultWidth :: nat
  ToHTML :: "string \<Rightarrow> string"
  upperTable :: "nat \<Rightarrow> nat"
  quote :: "string \<Rightarrow> string"

text \<open>
  The calls the code makes on the \<open>textutil.LineWriter\<close> \<open>w\<close>, in order: the output
  of a rendering function is this trace.  Each \<open>fmt.Fprint\<close>, \<open>Fprintln\<close> or
  \<open>Fprintf\<close> is one \<open>Write\<close> of the formatted text.
\<close>

datatype wop = Write string | Flush | SetIndents "string list" | ForceVerbatim bool

text \<open>
  What \<open>runHelp\<close> does: calls on its line writer \<open>w\<close>, text written straight to a
  writer, and calls on a line writer that \<open>usageFunc\<close> creates over a writer with a
  given width.
\<close>

datatype event = OnW wop | ToWriter writer string | OnLineWriter writer int wop

section \<open>help.go\<close>

definition missingDescription :: string where
  "missingDescription = ''No description available''"

definition helpName :: string where
  "helpName = ''help''"

definition ToUpper :: "extern \<Rightarrow> nat \<Rightarrow> nat" where
  "ToUpper X r =
     (if r \<le> 0x7F then (if 0x61 \<le> r \<and> r \<le> 0x7A then r - 0x20 else r)
      else upperTable X r)"

definition firstRuneToUpper :: "extern \<Rightarrow> string \<Rightarrow> string" where
  "firstRuneToUpper X s =
     (if s = [] then []
      else let (r, n) = DecodeRuneInString s in runeString (ToUpper X r) @ drop n s)"

definition godocHeader :: "extern \<Rightarrow> string \<Rightarrow> string \<Rightarrow> string" where
  "godocHeader X path short =
     (if path = [] then firstRuneToUpper X short
      else if short = [] then firstRuneToUpper X path
      else
        let header = firstRuneToUpper X (path @ '' - '' @ short);
            buf = ToHTML X (''before'' @ NL @ NL @ header @ NL @ NL @ ''after'')
        in if \<not> Contains buf ''<h'' then firstRuneToUpper X path else header)"

definition lineBreak :: "extern \<Rightarrow> int \<Rightarrow> style \<Rightarrow> wop list" where
  "lineBreak X ww st =
     [Flush] @
     (case st of
        styleCompact \<Rightarrow> [Write (Sprintln [replicate (if ww < 0 then defaultWidth X else nat ww) (CHR ''='')])]
      | styleFull \<Rightarrow> [Write (Sprintln [replicate (if ww < 0 then defaultWidth X else nat ww) (CHR ''='')])]
      | styleGoDoc \<Rightarrow> [Write NL]
      | styleShort \<Rightarrow> []) @
     [Flush]"

definition needsHelpChild :: "command \<Rightarrow> bool" where
  "needsHelpChild cmd =
     (if list_ex (\<lambda>child. Name child = helpName) (Children cmd) then False
      else 0 < length (Children cmd))"

definition matchRegexps :: "regexp list option \<Rightarrow> string \<Rightarrow> bool" where
  "matchRegexps regexps name =
     (case regexps of None \<Rightarrow> True | Some rs \<Rightarrow> list_ex (\<lambda>r. r name) rs)"

definition countFlags :: "flag list \<Rightarrow> regexp list option \<Rightarrow> bool \<Rightarrow> nat" where
  "countFlags flags regexps match =
     length (filter (\<lambda>f. match = matchRegexps regexps (flag_Name f)) flags)"

definition printFlags :: "flag list \<Rightarrow> style \<Rightarrow> regexp list option \<Rightarrow> bool \<Rightarrow> wop list" where
  "printFlags flags st regexps match =
     concat (map (\<lambda>f.
       if match \<noteq> matchRegexps regexps (flag_Name f) then []
       else
         [Write ('' -'' @ flag_Name f @ ''='' @ (if st = styleGoDoc then flag_DefValue f else flag_Value f)),
          SetIndents [spaces 3],
          Write (Sprintln [flag_Usage f]),
          SetIndents []]) flags)"

text \<open>
  \<open>append\<close> on the package variable: appending nothing to the nil slice leaves it nil.
\<close>

definition appendRegexps :: "regexp list option \<Rightarrow> regexp list \<Rightarrow> regexp list option" where
  "appendRegexps old regexps =
     (case old of
        None \<Rightarrow> (case regexps of [] \<Rightarrow> None | _ \<Rightarrow> Some regexps)
      | Some rs \<Rightarrow> Some (rs @ regexps))"

definition HideGlobalFlagsExcept :: "globals \<Rightarrow> regexp list \<Rightarrow> globals" where
  "HideGlobalFlagsExcept G regexps =
     (let appended = appendRegexps (nonHiddenGlobalFlags G) regexps
      in G\<lparr>nonHiddenGlobalFlags := (case appended of None \<Rightarrow> Some [] | Some rs \<Rightarrow> Some rs)\<rparr>)"

text \<open>
  \<open>helpRunner{path, config}.newCommand()\<close>.  The raw string literals of the source
  start and end with a line break.  The two flags are in the order \<open>VisitAll\<close> gives
  them, with the default values the code overrides.
\<close>

definition newCommand :: "extern \<Rightarrow> command list \<Rightarrow> helpConfig \<Rightarrow> command" where
  \<open>newCommand X path config =
     cleanTree X (Command
       helpName
       ''Display help for commands or topics''
       (NL @ ''Help with no args displays the usage of the parent command.'' @ NL @ NL
          @ ''Help with args displays the usage of the specified sub-command or help topic.'' @ NL @ NL
          @ ''"help ..." recursively displays help for all commands and topics.'' @ NL)
       [\<lparr>flag_Name = ''style'',
         flag_Usage = NL @ ''The formatting style for help output:'' @ NL
           @ ''   compact - Good for compact cmdline output.'' @ NL
           @ ''   full    - Good for cmdline output, shows all global flags.'' @ NL
           @ ''   godoc   - Good for godoc processing.'' @ NL
           @ ''Override the default by setting the CMDLINE_STYLE environment variable.'' @ NL,
         flag_Value = styleString X (style config),
         flag_DefValue = ''compact''\<rparr>,
        \<lparr>flag_Name = ''width'',
         flag_Usage = NL @ ''Format output to this target width in runes, or unlimited if width < 0.'' @ NL
           @ ''Defaults to the terminal width if available.  Override the default by setting'' @ NL
           @ ''the CMDLINE_WIDTH environment variable.'' @ NL,
         flag_Value = Itoa (width config),
         flag_DefValue = ''<terminal width>''\<rparr>]
       ''[command/topic ...]''
       (NL @ ''[command/topic ...] optionally identifies a specific sub-command or help topic.'' @ NL)
       False [] [] (Some HelpRunner))\<close>

subsection \<open>usage\<close>

definition cmdPathF :: "command \<Rightarrow> string \<Rightarrow> string" where
  "cmdPathF cmd cmdPath =
     ''   '' @ cmdPath @ (if 0 < countFlags (Flags cmd) None True then '' [flags]'' else [])"

definition subCmdsOf :: "extern \<Rightarrow> helpConfig \<Rightarrow> command \<Rightarrow> string list" where
  "subCmdsOf X config cmd =
     (if LookPath cmd then lookPathAll X (Name cmd) (pathDirs X (env config)) (subNames X cmd) else [])"

definition minNameWidth :: nat where
  "minNameWidth = 11"

text \<open>The two loops that compute the name width of the sub-command table.\<close>

definition nameWidth :: "command \<Rightarrow> string list \<Rightarrow> nat" where
  "nameWidth cmd subCmds =
     fold (\<lambda>subCmd w.
             let len = length (TrimPrefix subCmd (Name cmd @ ''-'')) in if w < len then len else w)
       subCmds
       (fold (\<lambda>child w. if w < length (Name child) then length (Name child) else w)
          (Children cmd) minNameWidth)"

definition topicWidth :: "topic list \<Rightarrow> nat" where
  "topicWidth topics =
     fold (\<lambda>t w. if w < length (topic_Name t) then length (topic_Name t) else w) topics minNameWidth"

text \<open>A row of a table: \<open>Fprintf(w, "%-[1]*[2]s %[3]s", nameWidth, name, short)\<close>, then a flush.\<close>

definition printShort :: "nat \<Rightarrow> string \<Rightarrow> string \<Rightarrow> wop list" where
  "printShort wid name short = [Write (SprintfRow wid name short), Flush]"

text \<open>
  The description of a binary sub-command: the child runs with both streams on a fresh
  buffer, \<open>CMDLINE_STYLE=short\<close> and the argument \<open>-help\<close>.
\<close>

definition captured :: "proc \<Rightarrow> string" where
  "captured r = concat (map snd (proc_out r))"

definition shortEnv :: "helpConfig \<Rightarrow> Env" where
  "shortEnv config =
     (env config)\<lparr>Stdout := Buffer, Stderr := Buffer,
                   Vars := (Vars (env config))(''CMDLINE_STYLE'' \<mapsto> ''short'')\<rparr>"

definition binaryRow :: "extern \<Rightarrow> helpConfig \<Rightarrow> command \<Rightarrow> string \<Rightarrow> nat \<Rightarrow> string \<Rightarrow> wop list" where
  "binaryRow X config cmd cmdPath wid subCmd =
     (let r = runBinary X subCmd cmdPath (shortEnv config) [''-help'']
      in if proc_err r = None
         then printShort wid (TrimPrefix subCmd (Name cmd @ ''-'')) (captured r)
         else printShort wid (TrimPrefix subCmd (Name cmd @ ''-'')) missingDescription)"

text \<open>The reminder \<open>fullhelp\<close> that compact style prints when global flags are hidden.\<close>

definition fullhelp :: "extern \<Rightarrow> helpConfig \<Rightarrow> command list \<Rightarrow> string" where
  \<open>fullhelp X config path =
     (if length (Children (last path)) = 0
      then (if 1 < length path
            then ''Run "'' @ pathName X (prefix X (env config)) (butlast path)
                 @ '' help -style=full '' @ Name (last path) @ ''" to show all global flags.''
            else ''Run "CMDLINE_STYLE=full '' @ pathName X (prefix X (env config)) path
                 @ '' -help" to show all global flags.'')
      else ''Run "'' @ pathName X (prefix X (env config)) path
           @ '' help -style=full" to show all global flags.'')\<close>

definition flagsUsage :: "extern \<Rightarrow> globals \<Rightarrow> helpConfig \<Rightarrow> command list \<Rightarrow> bool \<Rightarrow> wop list" where
  "flagsUsage X G config path firstCall' =
     (let cmd = last path;
          cmdPath = pathName X (prefix X (env config)) path;
          hasCompact = 0 < countFlags (globalFlags G) (nonHiddenGlobalFlags G) True;
          hasFull = 0 < countFlags (globalFlags G) (nonHiddenGlobalFlags G) False
      in
        (if 0 < countFlags (Flags cmd) None True
         then [Write NL, Write (Sprintln [''The'', cmdPath, ''flags are:''])]
              @ printFlags (Flags cmd) (style config) None True
         else []) @
        (if \<not> firstCall' then []
         else if style config \<noteq> styleCompact then
           (if hasCompact \<or> hasFull
            then [Write NL, Write (Sprintln [''The global flags are:''])]
                 @ printFlags (globalFlags G) (style config) (nonHiddenGlobalFlags G) True
                 @ (if hasCompact \<and> hasFull then [Write NL] else [])
                 @ printFlags (globalFlags G) (style config) (nonHiddenGlobalFlags G) False
            else [])
         else
           (if hasCompact
            then [Write NL, Write (Sprintln [''The global flags are:''])]
                 @ printFlags (globalFlags G) (style config) (nonHiddenGlobalFlags G) True
            else []) @
           (if hasFull then [Write NL, Write (Sprintln [fullhelp X config path])] else [])))"

text \<open>The sections of \<open>usage\<close>, in the order the code writes them.\<close>

definition usageHeader :: "extern \<Rightarrow> helpConfig \<Rightarrow> int \<Rightarrow> command \<Rightarrow> string \<Rightarrow> bool \<Rightarrow> wop list" where
  "usageHeader X config ww cmd cmdPath firstCall' =
     (if \<not> firstCall'
      then lineBreak X ww (style config)
           @ [ForceVerbatim True, Write (Sprintln [godocHeader X cmdPath (Short cmd)]),
              ForceVerbatim False, Write NL]
      else []) @
     [Write (Sprintln [Long cmd]), Write NL]"

definition usageLine :: "command \<Rightarrow> string \<Rightarrow> string list \<Rightarrow> wop list" where
  "usageLine cmd cmdPath subCmds =
     [Write (Sprintln [''Usage:''])] @
     (if Runner cmd \<noteq> None
      then (if ArgsName cmd \<noteq> [] then [Write (Sprintln [cmdPathF cmd cmdPath, ArgsName cmd])]
            else [Write (Sprintln [cmdPathF cmd cmdPath])])
      else []) @
     (if 0 < length subCmds \<or> 0 < length (Children cmd)
      then [Write (Sprintln [cmdPathF cmd cmdPath, ''<command>''])]
      else [])"

definition commandHeader :: "string \<Rightarrow> nat \<Rightarrow> wop list" where
  "commandHeader cmdPath wid =
     [Write NL, Write (Sprintln [''The'', cmdPath, ''commands are:'']),
      SetIndents [spaces 3, spaces (3 + wid + 1)]]"

definition commandFooter :: "helpConfig \<Rightarrow> string \<Rightarrow> bool \<Rightarrow> wop list" where
  \<open>commandFooter config cmdPath firstCall' =
     [SetIndents []] @
     (if firstCall' \<and> style config \<noteq> styleGoDoc
      then [Write (''Run "'' @ cmdPath @ '' help [command]" for command usage.'' @ NL)]
      else [])\<close>

definition commandTable ::
  "extern \<Rightarrow> helpConfig \<Rightarrow> command list \<Rightarrow> command \<Rightarrow> string \<Rightarrow> string list \<Rightarrow> bool \<Rightarrow> wop list" where
  "commandTable X config path cmd cmdPath subCmds firstCall' =
     (let hasSubcommands = (0 < length subCmds \<or> 0 < length (Children cmd));
          wid = nameWidth cmd subCmds
      in
        (if hasSubcommands then commandHeader cmdPath wid else []) @
        concat (map (\<lambda>child. printShort wid (Name child) (Short child)) (Children cmd)) @
        concat (map (binaryRow X config cmd cmdPath wid) subCmds) @
        (if firstCall' \<and> needsHelpChild cmd
         then printShort wid (Name (newCommand X path config)) (Short (newCommand X path config))
         else []) @
        (if hasSubcommands then commandFooter config cmdPath firstCall' else []))"

definition argsSection :: "command \<Rightarrow> wop list" where
  "argsSection cmd =
     (if Runner cmd \<noteq> None \<and> ArgsLong cmd \<noteq> [] then [Write NL, Write (Sprintln [ArgsLong cmd])] else [])"

definition topicHeader :: "string \<Rightarrow> nat \<Rightarrow> wop list" where
  "topicHeader cmdPath wid =
     [Write NL, Write (Sprintln [''The'', cmdPath, ''additional help topics are:'']),
      SetIndents [spaces 3, spaces (3 + wid + 1)]]"

definition topicFooter :: "helpConfig \<Rightarrow> string \<Rightarrow> bool \<Rightarrow> wop list" where
  \<open>topicFooter config cmdPath firstCall' =
     [SetIndents []] @
     (if firstCall' \<and> style config \<noteq> styleGoDoc
      then [Write (''Run "'' @ cmdPath @ '' help [topic]" for topic details.'' @ NL)]
      else [])\<close>

definition topicTable :: "helpConfig \<Rightarrow> command \<Rightarrow> string \<Rightarrow> bool \<Rightarrow> wop list" where
  "topicTable config cmd cmdPath firstCall' =
     (if 0 < length (Topics cmd)
      then topicHeader cmdPath (topicWidth (Topics cmd)) @
           concat (map (\<lambda>t. [Write (SprintfRow (topicWidth (Topics cmd)) (topic_Name t) (topic_Short t)),
                               Flush]) (Topics cmd)) @
           topicFooter config cmdPath firstCall'
      else [])"

text \<open>
  \<open>usage\<close> prints the usage of the last command in \<open>path\<close>; \<open>ww\<close> is the width of
  the line writer \<open>w\<close>.  On the empty path the index \<open>path[len(path)-1]\<close> panics
  before anything is written: the result \<open>None\<close>.
\<close>

definition usage :: "extern \<Rightarrow> globals \<Rightarrow> helpConfig \<Rightarrow> int \<Rightarrow> command list \<Rightarrow> bool \<Rightarrow> wop list option" where
  "usage X G config ww path firstCall' =
     (if path = [] then None
      else
        let cmd = last path; cmdPath = pathName X (prefix X (env config)) path
        in if style config = styleShort then Some [Write (Sprintln [Short cmd])]
           else
             let subCmds = subCmdsOf X config cmd
             in Some (usageHeader X config ww cmd cmdPath firstCall'
                      @ usageLine cmd cmdPath subCmds
                      @ commandTable X config path cmd cmdPath subCmds firstCall'
                      @ argsSection cmd
                      @ topicTable config cmd cmdPath firstCall'
                      @ flagsUsage X G config path firstCall'))"

subsection \<open>usageAll\<close>

definition dumpEnv :: "extern \<Rightarrow> helpConfig \<Rightarrow> Env" where
  "dumpEnv X config =
     (env config)\<lparr>Stdout := Buffer, Stderr := Buffer,
                   Vars := (Vars (env config))(''CMDLINE_FIRST_CALL'' \<mapsto> ''1'',
                                               ''CMDLINE_STYLE'' \<mapsto> styleString X (style config))\<rparr>"

definition binaryDump :: "extern \<Rightarrow> helpConfig \<Rightarrow> int \<Rightarrow> command \<Rightarrow> string \<Rightarrow> string \<Rightarrow> wop list" where
  "binaryDump X config ww cmd cmdPath subCmd =
     (let r1 = runBinary X subCmd cmdPath (dumpEnv X config) [helpName, ''...''];
          r2 = runBinary X subCmd cmdPath (dumpEnv X config) [''-help'']
      in if proc_err r1 = None
         then (if style config = styleGoDoc then [Write NL] else []) @ [Write (captured r1)]
         else if proc_err r2 = None
         then (if style config = styleGoDoc then [Write NL] else []) @ [Write (captured r2)]
         else lineBreak X ww (style config)
              @ [Write (Sprintln [godocHeader X (cmdPath @ '' '' @ TrimPrefix subCmd (Name cmd @ ''-''))
                                    missingDescription])])"

definition topicDump :: "extern \<Rightarrow> helpConfig \<Rightarrow> int \<Rightarrow> string \<Rightarrow> topic \<Rightarrow> wop list" where
  "topicDump X config ww cmdPath t =
     lineBreak X ww (style config)
     @ [ForceVerbatim True, Write (Sprintln [godocHeader X (cmdPath @ '' '' @ topic_Name t) (topic_Short t)]),
        ForceVerbatim False, Write NL, Write (Sprintln [topic_Long t])]"

function usageAll :: "extern \<Rightarrow> globals \<Rightarrow> helpConfig \<Rightarrow> int \<Rightarrow> command list \<Rightarrow> bool \<Rightarrow> wop list option" where
  "usageAll X G config ww path firstCall' =
     (if path = [] then None
      else do {
        own \<leftarrow> usage X G config ww path firstCall';
        children \<leftarrow> those (map (\<lambda>child. usageAll X G config ww (path @ [child]) False) (Children (last path)));
        help \<leftarrow> (if firstCall' \<and> needsHelpChild (last path)
                 then usageAll X G config ww (path @ [newCommand X path config]) False
                 else Some []);
        Some (own
              @ concat children
              @ (if LookPath (last path)
                 then concat (map (binaryDump X config ww (last path) (pathName X (prefix X (env config)) path))
                                (lookPathAll X (Name (last path)) (pathDirs X (env config)) (subNames X (last path))))
                 else [])
              @ help
              @ concat (map (topicDump X config ww (pathName X (prefix X (env config)) path)) (Topics (last path))))
      })"
  by pat_completeness auto
termination
  apply (relation "measures [\<lambda>(X, G, config, ww, path, fc). (if fc then 1 else 0),
                             \<lambda>(X, G, config, ww, path, fc). size (last path)]")
    apply simp
   apply (auto)[1]
  subgoal for X G config ww path firstCall' own child
    by (cases "last path") (auto simp: less_Suc_eq_le dest: size_list_estimation')
  apply auto
  done

declare usageAll.simps [simp del]

subsection \<open>runHelp\<close>

text \<open>
  \<open>helpRunner{path, config}.usageFunc\<close>: the usage of the last command of the path on
  a new line writer over the given writer, then a flush.
\<close>

definition usageFunc :: "extern \<Rightarrow> globals \<Rightarrow> command list \<Rightarrow> helpConfig \<Rightarrow> writer \<Rightarrow> event list option" where
  "usageFunc X G path config wr =
     map_option (\<lambda>ops. map (OnLineWriter wr (width config)) (ops @ [Flush]))
       (usage X G config (width config) path (firstCall X (env config)))"

text \<open>
  Modelled from the spec: \<open>usageErrorf\<close>, which is not in \<open>help.go\<close>.  The spec has
  the failure carry the formatted message, has the message written to the sink it is
  given, and has the usage function it is paired with show the usage on that sink.
\<close>

definition usageErrorf ::
  "writer \<Rightarrow> (writer \<Rightarrow> event list option) \<Rightarrow> string \<Rightarrow> (error option \<times> event list) option" where
  "usageErrorf wr fn msg = map_option (\<lambda>shown. (Some (ErrUsage msg), ToWriter wr msg # shown)) (fn wr)"

text \<open>
  \<open>runHelp\<close> returns the error (\<open>None\<close> is nil) and what it did; \<open>None\<close> for the
  whole result is the panic on an empty path.  A child process started for an external
  sub-command inherits the streams of the cloned environment.
\<close>

definition delegateEnv :: "extern \<Rightarrow> helpConfig \<Rightarrow> Env" where
  "delegateEnv X config =
     (env config)\<lparr>Vars := (Vars (env config))(''CMDLINE_STYLE'' \<mapsto> styleString X (style config))\<rparr>"

definition inherited :: "Env \<Rightarrow> fd \<times> string \<Rightarrow> event" where
  "inherited e chunk =
     (case chunk of (FdStdout, s) \<Rightarrow> ToWriter (Stdout e) s | (FdStderr, s) \<Rightarrow> ToWriter (Stderr e) s)"

fun runHelp ::
  "extern \<Rightarrow> globals \<Rightarrow> helpConfig \<Rightarrow> int \<Rightarrow> writer \<Rightarrow> string list \<Rightarrow> command list
     \<Rightarrow> (error option \<times> event list) option" where
  "runHelp X G config ww stderr [] path =
     map_option (\<lambda>ops. (None, map OnW ops)) (usage X G config ww path (firstCall X (env config)))"
| "runHelp X G config ww stderr (subName # subArgs) path =
     (if subName = ''...''
      then map_option (\<lambda>ops. (None, map OnW ops)) (usageAll X G config ww path (firstCall X (env config)))
      else if path = [] then None
      else
        (case find (\<lambda>child. Name child = subName) (Children (last path)) of
           Some child \<Rightarrow> runHelp X G config ww stderr subArgs (path @ [child])
         | None \<Rightarrow>
             if helpName = subName
             then runHelp X G config ww stderr subArgs (path @ [newCommand X path config])
             else if LookPath (last path)
                     \<and> lookPath X (Name (last path) @ ''-'' @ subName) (pathDirs X (env config))
             then
               (let r = runBinary X (Name (last path) @ ''-'' @ subName)
                          (pathName X (prefix X (env config)) path)
                          (delegateEnv X config)
                          (if length subArgs = 0 then [''-help''] else [helpName] @ subArgs)
                in Some (proc_err r, map (inherited (delegateEnv X config)) (proc_out r)))
             else
               (case find (\<lambda>t. topic_Name t = subName) (Topics (last path)) of
                  Some t \<Rightarrow> Some (None, [OnW (Write (Sprintln [topic_Long t]))])
                | None \<Rightarrow>
                    usageErrorf stderr (usageFunc X G path config)
                      (pathName X (prefix X (env config)) path @ '': unknown command or topic ''
                       @ quote X subName))))"

section \<open>The rows of a table, as the specification describes them\<close>



text \<open>The first line of a text, as the specification words the description of a binary.\<close>

definition firstLine :: "string \<Rightarrow> string" where
  "firstLine s = takeWhile (\<lambda>c. c \<noteq> CHR 0x0A) s"

text \<open>The global flags whose names match at least one of the regular expressions.\<close>

definition shownBy :: "regexp list \<Rightarrow> flag list \<Rightarrow> flag list" where
  "shownBy rs flags = filter (\<lambda>f. list_ex (\<lambda>r. r (flag_Name f)) rs) flags"

section \<open>Example command trees\<close>

text \<open>
  A small tool \<open>root\<close> with one built-in command, one help topic and one flag, in an
  environment whose search path holds the executable \<open>root-extra\<close>.  The executable
  answers the short-style \<open>-help\<close> with a line on each of its two streams, and fails on
  every other request.  \<open>doc.ToHTML\<close> is stood in for by its rule on characters: the
  line becomes a heading unless it holds one of the characters the generator forbids in
  a heading (the example lines start with an upper-case letter and end with a letter, as
  the generator also asks).
\<close>

definition forbiddenInHeading :: string where
  \<open>forbiddenInHeading = '';:!?+*/=[]{}_^&~%#@<">'' @ [CHR 0x5C]\<close>

definition testExtern :: extern where
  \<open>testExtern =
     \<lparr>pathName = (\<lambda>p cs. joinSp ((if p = [] then [] else [p]) @ map Name cs)),
      prefix = (\<lambda>e. []),
      firstCall = (\<lambda>e. Vars e ''CMDLINE_FIRST_CALL'' \<noteq> None),
      pathDirs = (\<lambda>e. [''/bin'']),
      lookPath = (\<lambda>name dirs. name = ''root-extra''),
      lookPathAll = (\<lambda>name dirs excluded. if name = ''root'' then [''root-extra''] else []),
      subNames = (\<lambda>cmd. map Name (Children cmd)),
      runBinary = (\<lambda>subCmd cmdPath e args.
        if args = [''-help''] \<and> Vars e ''CMDLINE_STYLE'' = Some ''short''
        then \<lparr>proc_err = None,
              proc_out = [(FdStdout, ''Extra tools'' @ NL), (FdStderr, ''second line'' @ NL)]\<rparr>
        else if args = [''-help'']
        then \<lparr>proc_err = Some (ExecError ''exit status 2''),
              proc_out = [(FdStdout, ''extra usage'' @ NL), (FdStderr, ''failed'' @ NL)]\<rparr>
        else \<lparr>proc_err = Some (ExecError ''exit status 1''), proc_out = [(FdStderr, ''no help'' @ NL)]\<rparr>),
      cleanTree = (\<lambda>cmd. cmd),
      styleString = (\<lambda>st. case st of styleCompact \<Rightarrow> ''compact'' | styleFull \<Rightarrow> ''full''
                                 | styleGoDoc \<Rightarrow> ''godoc'' | styleShort \<Rightarrow> ''short''),
      defaultWidth = 80,
      ToHTML = (\<lambda>s. if list_ex (\<lambda>c. c \<in> set forbiddenInHeading) s
                     then ''<p>before</p><p>line</p><p>after</p>''
                     else ''<p>before</p><h3>line</h3><p>after</p>''),
      upperTable = (\<lambda>r. r),
      quote = (\<lambda>s. ''"'' @ s @ ''"'')\<rparr>\<close>

definition testEnv :: Env where
  "testEnv = \<lparr>Stdout = OsStdout, Stderr = OsStderr, Vars = [''CMDLINE_FIRST_CALL'' \<mapsto> ''1'']\<rparr>"

definition testConfig :: helpConfig where
  "testConfig = \<lparr>env = testEnv, style = styleCompact, width = 20\<rparr>"

definition testGlobals :: globals where
  "testGlobals = \<lparr>globalFlags = [], nonHiddenGlobalFlags = None\<rparr>"

definition buildCmd :: command where
  "buildCmd = Command ''build'' ''Build it'' ''Build builds.'' [] [] [] False [] [] (Some AppRunner)"

definition verboseFlag :: flag where
  "verboseFlag =
     \<lparr>flag_Name = ''v'', flag_Usage = ''Verbose.'', flag_Value = ''false'', flag_DefValue = ''false''\<rparr>"

definition guideTopic :: topic where
  "guideTopic = \<lparr>topic_Name = ''guide'', topic_Short = ''A guide'', topic_Long = ''The long guide.''\<rparr>"

definition rootCmd :: command where
  "rootCmd =
     Command ''root'' ''Root tool'' ''Root is the tool.'' [verboseFlag] [] [] True [buildCmd] [guideTopic] None"

text \<open>The same tool with no built-in command: only the external search is left.\<close>

definition lookCmd :: command where
  "lookCmd = Command ''root'' ''Root tool'' ''Root is the tool.'' [] [] [] True [] [] None"






text \<open>Two global flags, and a regular expression that matches the name \<open>v\<close> only.\<close>

definition logFlag :: flag where
  "logFlag =
     \<lparr>flag_Name = ''log_dir'', flag_Usage = ''Log directory.'', flag_Value = ''/tmp'', flag_DefValue = []\<rparr>"

definition flagGlobals :: globals where
  "flagGlobals = \<lparr>globalFlags = [logFlag, verboseFlag], nonHiddenGlobalFlags = None\<rparr>"

definition onlyV :: regexp where
  "onlyV = (\<lambda>name. name = ''v'')"

section \<open>UTF-8 decoding\<close>


lemma decode_ascii:
  "(of_char c :: nat) < 0x80 \<Longrightarrow> DecodeRuneInString (c # cs) = (of_char c, 1)"
  by simp

lemma decode_bad_lead:
  "0x80 \<le> (of_char c :: nat) \<Longrightarrow> (of_char c :: nat) < 0xC2 \<or> 0xF4 < (of_char c :: nat)
     \<Longrightarrow> DecodeRuneInString (c # cs) = (RuneError, 1)"
  by (simp add: Let_def)

lemma decode_two:
  "0xC2 \<le> (of_char c :: nat) \<Longrightarrow> (of_char c :: nat) < 0xE0 \<Longrightarrow>
   DecodeRuneInString (c # cs) =
     (case cs of
        c1 # _ \<Rightarrow> if contByte 0x80 0xBF c1 then ((of_char c mod 32) * 64 + of_char c1 mod 64, 2)
                  else (RuneError, 1)
      | _ \<Rightarrow> (RuneError, 1))"
  by (simp add: Let_def)

lemma decode_three:
  "0xE0 \<le> (of_char c :: nat) \<Longrightarrow> (of_char c :: nat) < 0xF0 \<Longrightarrow>
   DecodeRuneInString (c # cs) =
     (case cs of
        c1 # c2 # _ \<Rightarrow>
          if \<not> contByte (if (of_char c :: nat) = 0xE0 then 0xA0 else 0x80)
                          (if (of_char c :: nat) = 0xED then 0x9F else 0xBF) c1
          then (RuneError, 1)
          else if \<not> contByte 0x80 0xBF c2 then (RuneError, 1)
          else ((of_char c mod 16) * 4096 + (of_char c1 mod 64) * 64 + of_char c2 mod 64, 3)
      | _ \<Rightarrow> (RuneError, 1))"
  by (simp add: Let_def)

lemma decode_four:
  "0xF0 \<le> (of_char c :: nat) \<Longrightarrow> (of_char c :: nat) \<le> 0xF4 \<Longrightarrow>
   DecodeRuneInString (c # cs) =
     (case cs of
        c1 # c2 # c3 # _ \<Rightarrow>
          if \<not> contByte (if (of_char c :: nat) = 0xF0 then 0x90 else 0x80)
                          (if (of_char c :: nat) = 0xF4 then 0x8F else 0xBF) c1
          then (RuneError, 1)
          else if \<not> contByte 0x80 0xBF c2 then (RuneError, 1)
          else if \<not> contByte 0x80 0xBF c3 then (RuneError, 1)
          else ((of_char c mod 8) * 262144 + (of_char c1 mod 64) * 4096
                + (of_char c2 mod 64) * 64 + of_char c3 mod 64, 4)
      | _ \<Rightarrow> (RuneError, 1))"
  by (simp add: Let_def)

lemma lead_classes:
  obtains "(of_char c :: nat) < 0x80"
  | "0x80 \<le> (of_char c :: nat)" "(of_char c :: nat) < 0xC2 \<or> 0xF4 < (of_char c :: nat)"
  | "0xC2 \<le> (of_char c :: nat)" "(of_char c :: nat) < 0xE0"
  | "0xE0 \<le> (of_char c :: nat)" "(of_char c :: nat) < 0xF0"
  | "0xF0 \<le> (of_char c :: nat)" "(of_char c :: nat) \<le> 0xF4"
  by linarith

declare DecodeRuneInString.simps(2) [simp del]







lemma RuneCount_ascii:
  "(\<And>c. c \<in> set s \<Longrightarrow> (of_char c :: nat) < 0x80) \<Longrightarrow> RuneCountInString s = length s"
  by (induction s) (simp_all add: decode_ascii)

lemma mod_in_block:
  fixes a :: nat
  assumes "k * n \<le> a" and "a < k * n + n"
  shows "a mod n = a - k * n"
proof -
  have "a = (a - k * n) + k * n" using assms(1) by simp
  then have "a mod n = ((a - k * n) + k * n) mod n" by simp
  also have "\<dots> = (a - k * n) mod n" by simp
  finally have "a mod n = (a - k * n) mod n" .
  moreover have "a - k * n < n" using assms by linarith
  ultimately show ?thesis by simp
qed

lemma join2: "(r :: nat) = (r div 64) * 64 + r mod 64"
  by simp

lemma join3: "(r :: nat) = (r div 4096) * 4096 + ((r div 64) mod 64) * 64 + r mod 64"
proof -
  have e: "((r div 64) div 64) * 64 + (r div 64) mod 64 = r div 64" by simp
  have d: "(r div 64) div 64 = r div 4096" by (simp add: div_mult2_eq [symmetric])
  have "(r div 64) * 64 = (r div 4096) * 4096 + ((r div 64) mod 64) * 64"
    using e unfolding d by linarith
  with join2 [of r] show ?thesis by linarith
qed

lemma join4:
  "(r :: nat) = (r div 262144) * 262144 + ((r div 4096) mod 64) * 4096 + ((r div 64) mod 64) * 64 + r mod 64"
proof -
  have e: "((r div 4096) div 64) * 64 + (r div 4096) mod 64 = r div 4096" by simp
  have d: "(r div 4096) div 64 = r div 262144" by (simp add: div_mult2_eq [symmetric])
  have "(r div 4096) * 4096 = (r div 262144) * 262144 + ((r div 4096) mod 64) * 4096"
    using e unfolding d by linarith
  with join3 [of r] show ?thesis by linarith
qed

lemma of_char_small: "n < 256 \<Longrightarrow> (of_char (char_of (n :: nat)) :: nat) = n"
  by simp

lemma decode_encoded_two:
  fixes r :: nat
  assumes "0x80 \<le> r" and "r < 0x800"
  shows "DecodeRuneInString (char_of (0xC0 + r div 64) # char_of (0x80 + r mod 64) # rest) = (r, 2)"
proof -
  define q m where "q = r div 64" and "m = r mod 64"
  have r: "r = q * 64 + m" and m: "m < 64"
    by (simp_all add: q_def m_def)
  have q: "2 \<le> q" "q < 32"
    using assms r m by linarith+
  have b0: "(of_char (char_of (0xC0 + q)) :: nat) = 0xC0 + q"
    using q by (intro of_char_small) linarith
  have b1: "(of_char (char_of (0x80 + m)) :: nat) = 0x80 + m"
    using m by (intro of_char_small) linarith
  have m0: "(0xC0 + q) mod 32 = q"
    using mod_in_block [of 6 32 "0xC0 + q"] q by simp
  have m1: "(0x80 + m) mod 64 = m"
    using mod_in_block [of 2 64 "0x80 + m"] m by simp
  have "DecodeRuneInString (char_of (0xC0 + q) # char_of (0x80 + m) # rest) = (q * 64 + m, 2)"
    using q m by (subst decode_two) (simp_all add: b0 b1 m0 m1 contByte_def)
  then show ?thesis
    by (simp only: r [symmetric] q_def [symmetric] m_def [symmetric])
qed

lemma decode_encoded_three:
  fixes r :: nat
  assumes "0x800 \<le> r" and "r < 0x10000" and "r < 0xD800 \<or> 0xDFFF < r"
  shows "DecodeRuneInString (char_of (0xE0 + r div 4096) # char_of (0x80 + (r div 64) mod 64)
                             # char_of (0x80 + r mod 64) # rest) = (r, 3)"
proof -
  define a0 a1 a2 where "a0 = r div 4096" and "a1 = (r div 64) mod 64" and "a2 = r mod 64"
  have r: "r = a0 * 4096 + a1 * 64 + a2"
    unfolding a0_def a1_def a2_def by (rule join3)
  have a1: "a1 < 64" and a2: "a2 < 64"
    by (simp_all add: a1_def a2_def)
  have a0: "a0 < 16"
    using assms(2) r by linarith
  have low: "a0 = 0 \<Longrightarrow> 32 \<le> a1"
    using assms(1) r a2 by linarith
  have high: "a0 = 13 \<Longrightarrow> a1 \<le> 31"
    using assms(3) r a1 a2 by linarith
  have b0: "(of_char (char_of (0xE0 + a0)) :: nat) = 0xE0 + a0"
    using a0 by (intro of_char_small) linarith
  have b1: "(of_char (char_of (0x80 + a1)) :: nat) = 0x80 + a1"
    using a1 by (intro of_char_small) linarith
  have b2: "(of_char (char_of (0x80 + a2)) :: nat) = 0x80 + a2"
    using a2 by (intro of_char_small) linarith
  have m0: "(0xE0 + a0) mod 16 = a0"
    using mod_in_block [of 14 16 "0xE0 + a0"] a0 by simp
  have m1: "(0x80 + a1) mod 64 = a1"
    using mod_in_block [of 2 64 "0x80 + a1"] a1 by simp
  have m2: "(0x80 + a2) mod 64 = a2"
    using mod_in_block [of 2 64 "0x80 + a2"] a2 by simp
  have c1: "contByte (if (0xE0 + a0 :: nat) = 0xE0 then 0xA0 else 0x80)
                     (if (0xE0 + a0 :: nat) = 0xED then 0x9F else 0xBF) (char_of (0x80 + a1))"
    using a1 low high by (auto simp: contByte_def b1)
  have c2: "contByte 0x80 0xBF (char_of (0x80 + a2))"
    using a2 by (simp add: contByte_def b2)
  have "DecodeRuneInString (char_of (0xE0 + a0) # char_of (0x80 + a1) # char_of (0x80 + a2) # rest)
      = (a0 * 4096 + a1 * 64 + a2, 3)"
    using a0 c1 c2 by (subst decode_three) (simp_all add: b0 b1 b2 m0 m1 m2 del: of_char_of)
  then show ?thesis
    by (simp only: r [symmetric] a0_def [symmetric] a1_def [symmetric] a2_def [symmetric])
qed

lemma decode_encoded_four:
  fixes r :: nat
  assumes "0x10000 \<le> r" and "r \<le> 0x10FFFF"
  shows "DecodeRuneInString (char_of (0xF0 + r div 262144) # char_of (0x80 + (r div 4096) mod 64)
                             # char_of (0x80 + (r div 64) mod 64) # char_of (0x80 + r mod 64) # rest) = (r, 4)"
proof -
  define a0 a1 a2 a3 where "a0 = r div 262144" and "a1 = (r div 4096) mod 64"
    and "a2 = (r div 64) mod 64" and "a3 = r mod 64"
  have r: "r = a0 * 262144 + a1 * 4096 + a2 * 64 + a3"
    unfolding a0_def a1_def a2_def a3_def by (rule join4)
  have a1: "a1 < 64" and a2: "a2 < 64" and a3: "a3 < 64"
    by (simp_all add: a1_def a2_def a3_def)
  have a0: "a0 \<le> 4"
    using assms(2) r by linarith
  have low: "a0 = 0 \<Longrightarrow> 16 \<le> a1"
    using assms(1) r a2 a3 by linarith
  have high: "a0 = 4 \<Longrightarrow> a1 \<le> 15"
    using assms(2) r by linarith
  have b0: "(of_char (char_of (0xF0 + a0)) :: nat) = 0xF0 + a0"
    using a0 by (intro of_char_small) linarith
  have b1: "(of_char (char_of (0x80 + a1)) :: nat) = 0x80 + a1"
    using a1 by (intro of_char_small) linarith
  have b2: "(of_char (char_of (0x80 + a2)) :: nat) = 0x80 + a2"
    using a2 by (intro of_char_small) linarith
  have b3: "(of_char (char_of (0x80 + a3)) :: nat) = 0x80 + a3"
    using a3 by (intro of_char_small) linarith
  have m0: "(0xF0 + a0) mod 8 = a0"
    using mod_in_block [of 30 8 "0xF0 + a0"] a0 by simp
  have m1: "(0x80 + a1) mod 64 = a1"
    using mod_in_block [of 2 64 "0x80 + a1"] a1 by simp
  have m2: "(0x80 + a2) mod 64 = a2"
    using mod_in_block [of 2 64 "0x80 + a2"] a2 by simp
  have m3: "(0x80 + a3) mod 64 = a3"
    using mod_in_block [of 2 64 "0x80 + a3"] a3 by simp
  have c1: "contByte (if (0xF0 + a0 :: nat) = 0xF0 then 0x90 else 0x80)
                     (if (0xF0 + a0 :: nat) = 0xF4 then 0x8F else 0xBF) (char_of (0x80 + a1))"
    using a1 low high by (auto simp: contByte_def b1)
  have c2: "contByte 0x80 0xBF (char_of (0x80 + a2))"
    using a2 by (simp add: contByte_def b2)
  have c3: "contByte 0x80 0xBF (char_of (0x80 + a3))"
    using a3 by (simp add: contByte_def b3)
  have "DecodeRuneInString (char_of (0xF0 + a0) # char_of (0x80 + a1) # char_of (0x80 + a2)
                            # char_of (0x80 + a3) # rest)
      = (a0 * 262144 + a1 * 4096 + a2 * 64 + a3, 4)"
    using a0 c1 c2 c3 by (subst decode_four) (simp_all add: b0 b1 b2 b3 m0 m1 m2 m3 del: of_char_of)
  then show ?thesis
    by (simp only: r [symmetric] a0_def [symmetric] a1_def [symmetric] a2_def [symmetric] a3_def [symmetric])
qed

lemma decode_runeString:
  assumes "validRune r"
  shows "DecodeRuneInString (runeString r @ rest) = (r, length (runeString r))"
proof -
  consider "r < 0x80" | "0x80 \<le> r" "r < 0x800" | "0x800 \<le> r" "r < 0x10000" | "0x10000 \<le> r"
    by linarith
  then show ?thesis
  proof cases
    case 1
    then show ?thesis by (simp add: runeString_def decode_ascii)
  next
    case 2
    then show ?thesis by (simp add: runeString_def decode_encoded_two)
  next
    case 3
    with assms have "r < 0xD800 \<or> 0xDFFF < r" by (simp add: validRune_def)
    with 3 show ?thesis by (auto simp: runeString_def decode_encoded_three)
  next
    case 4
    with assms have "r \<le> 0x10FFFF" by (simp add: validRune_def)
    with 4 show ?thesis by (simp add: runeString_def decode_encoded_four)
  qed
qed

lemma firstRuneToUpper_valid:
  assumes "validRune r"
  shows "firstRuneToUpper X (runeString r @ rest) = runeString (ToUpper X r) @ rest"
proof -
  have "runeString r \<noteq> []"
    by (simp add: runeString_def)
  then show ?thesis
    by (simp add: firstRuneToUpper_def decode_runeString [OF assms])
qed

lemma split2:
  fixes hi lo :: nat
  assumes "lo < 64"
  shows "(hi * 64 + lo) div 64 = hi" and "(hi * 64 + lo) mod 64 = lo"
  using assms by simp_all

lemma split3:
  fixes hi mid lo :: nat
  assumes "mid < 64" and "lo < 64"
  shows "(hi * 4096 + mid * 64 + lo) div 4096 = hi"
    and "((hi * 4096 + mid * 64 + lo) div 64) mod 64 = mid"
    and "(hi * 4096 + mid * 64 + lo) mod 64 = lo"
proof -
  have x: "hi * 4096 + mid * 64 + lo = (hi * 64 + mid) * 64 + lo"
    by simp
  have "mid * 64 + lo < 4096" using assms by linarith
  then have "(hi * 4096 + (mid * 64 + lo)) div 4096 = hi" by simp
  then show "(hi * 4096 + mid * 64 + lo) div 4096 = hi" by (simp add: add.assoc)
  show "((hi * 4096 + mid * 64 + lo) div 64) mod 64 = mid"
    unfolding x using assms by (simp only: split2)
  show "(hi * 4096 + mid * 64 + lo) mod 64 = lo"
    unfolding x using assms by (simp only: split2)
qed

lemma split4:
  fixes hi m1 m2 lo :: nat
  assumes "m1 < 64" and "m2 < 64" and "lo < 64"
  shows "(hi * 262144 + m1 * 4096 + m2 * 64 + lo) div 262144 = hi"
    and "((hi * 262144 + m1 * 4096 + m2 * 64 + lo) div 4096) mod 64 = m1"
    and "((hi * 262144 + m1 * 4096 + m2 * 64 + lo) div 64) mod 64 = m2"
    and "(hi * 262144 + m1 * 4096 + m2 * 64 + lo) mod 64 = lo"
proof -
  have x: "hi * 262144 + m1 * 4096 + m2 * 64 + lo = (hi * 64 + m1) * 4096 + m2 * 64 + lo"
    by simp
  have "m1 * 4096 + m2 * 64 + lo < 262144" using assms by linarith
  then have "(hi * 262144 + (m1 * 4096 + m2 * 64 + lo)) div 262144 = hi" by simp
  then show "(hi * 262144 + m1 * 4096 + m2 * 64 + lo) div 262144 = hi" by (simp add: add.assoc)
  have "((hi * 64 + m1) * 4096 + m2 * 64 + lo) div 4096 = hi * 64 + m1"
    using assms(2,3) by (rule split3(1))
  then show "((hi * 262144 + m1 * 4096 + m2 * 64 + lo) div 4096) mod 64 = m1"
    unfolding x using assms(1) by (simp only: split2)
  show "((hi * 262144 + m1 * 4096 + m2 * 64 + lo) div 64) mod 64 = m2"
    unfolding x using assms(2,3) by (rule split3(2))
  show "(hi * 262144 + m1 * 4096 + m2 * 64 + lo) mod 64 = lo"
    unfolding x using assms(2,3) by (rule split3(3))
qed

lemma encoded_two:
  fixes a b :: nat
  assumes "0xC2 \<le> a" "a < 0xE0" "0x80 \<le> b" "b \<le> 0xBF"
  shows "\<exists>r. validRune r \<and> runeString r = [char_of a, char_of b]"
proof -
  define hi lo where "hi = a - 0xC0" and "lo = b - 0x80"
  have a: "a = 0xC0 + hi" and b: "b = 0x80 + lo" and lo: "lo < 64" and hi: "2 \<le> hi" "hi < 32"
    using assms by (simp_all add: hi_def lo_def)
  let ?r = "hi * 64 + lo"
  have range: "0x80 \<le> ?r" "?r < 0x800"
    using hi lo by linarith+
  then have "validRune ?r"
    by (simp add: validRune_def)
  moreover have "runeString ?r = [char_of (0xC0 + ?r div 64), char_of (0x80 + ?r mod 64)]"
    using range by (simp add: runeString_def)
  then have "runeString ?r = [char_of a, char_of b]"
    by (simp only: split2 [OF lo] a b)
  ultimately show ?thesis by blast
qed

lemma encoded_three:
  fixes a b c :: nat
  assumes "0xE0 \<le> a" "a < 0xF0"
    and "(if a = 0xE0 then 0xA0 else 0x80) \<le> b" "b \<le> (if a = 0xED then 0x9F else 0xBF)"
    and "0x80 \<le> c" "c \<le> 0xBF"
  shows "\<exists>r. validRune r \<and> runeString r = [char_of a, char_of b, char_of c]"
proof -
  define hi mid lo where "hi = a - 0xE0" and "mid = b - 0x80" and "lo = c - 0x80"
  have b80: "0x80 \<le> b" and bBF: "b \<le> 0xBF"
    using assms(3,4) by (auto split: if_splits)
  have a: "a = 0xE0 + hi" and b: "b = 0x80 + mid" and c: "c = 0x80 + lo"
    and mid: "mid < 64" and lo: "lo < 64" and hi: "hi < 16"
    using assms(1,2,5,6) b80 bBF by (simp_all add: hi_def mid_def lo_def)
  have first: "hi = 0 \<Longrightarrow> 32 \<le> mid"
    using assms(3) a by (simp add: mid_def)
  have surr: "hi = 13 \<Longrightarrow> mid \<le> 31"
    using assms(4) a by (simp add: mid_def)
  let ?r = "hi * 4096 + mid * 64 + lo"
  have lower: "0x800 \<le> ?r"
    using first mid lo by (cases "hi = 0") simp_all
  have upper: "?r < 0x10000"
    using hi mid lo by linarith
  have nosurr: "?r < 0xD800 \<or> 0xDFFF < ?r"
  proof (cases "hi \<le> 13")
    case True
    then show ?thesis using surr mid lo by (cases "hi = 13") simp_all
  next
    case False
    then show ?thesis by simp
  qed
  have "validRune ?r"
    using nosurr upper by (auto simp: validRune_def)
  moreover have "runeString ?r =
      [char_of (0xE0 + ?r div 4096), char_of (0x80 + (?r div 64) mod 64), char_of (0x80 + ?r mod 64)]"
    using lower upper nosurr by (elim disjE) (simp_all add: runeString_def)
  then have "runeString ?r = [char_of a, char_of b, char_of c]"
    by (simp only: split3 [OF mid lo] a b c)
  ultimately show ?thesis by blast
qed

lemma encoded_four:
  fixes a b c d :: nat
  assumes "0xF0 \<le> a" "a \<le> 0xF4"
    and "(if a = 0xF0 then 0x90 else 0x80) \<le> b" "b \<le> (if a = 0xF4 then 0x8F else 0xBF)"
    and "0x80 \<le> c" "c \<le> 0xBF" and "0x80 \<le> d" "d \<le> 0xBF"
  shows "\<exists>r. validRune r \<and> runeString r = [char_of a, char_of b, char_of c, char_of d]"
proof -
  define hi m1 m2 lo where "hi = a - 0xF0" and "m1 = b - 0x80" and "m2 = c - 0x80" and "lo = d - 0x80"
  have b80: "0x80 \<le> b" and bBF: "b \<le> 0xBF"
    using assms(3,4) by (auto split: if_splits)
  have a: "a = 0xF0 + hi" and b: "b = 0x80 + m1" and c: "c = 0x80 + m2" and d: "d = 0x80 + lo"
    and m1: "m1 < 64" and m2: "m2 < 64" and lo: "lo < 64" and hi: "hi \<le> 4"
    using assms(1,2,5,6,7,8) b80 bBF by (simp_all add: hi_def m1_def m2_def lo_def)
  have first: "hi = 0 \<Longrightarrow> 16 \<le> m1"
    using assms(3) a by (simp add: m1_def)
  have last: "hi = 4 \<Longrightarrow> m1 \<le> 15"
    using assms(4) a by (simp add: m1_def)
  let ?r = "hi * 262144 + m1 * 4096 + m2 * 64 + lo"
  have lower: "0x10000 \<le> ?r"
    using first by (cases "hi = 0") simp_all
  have upper: "?r \<le> 0x10FFFF"
  proof (cases "hi = 4")
    case True
    then show ?thesis using last m2 lo by simp
  next
    case False
    with hi have "hi \<le> 3" by simp
    then show ?thesis using m1 m2 lo by linarith
  qed
  have "validRune ?r"
    using lower upper by (simp add: validRune_def)
  moreover have "runeString ?r =
      [char_of (0xF0 + ?r div 262144), char_of (0x80 + (?r div 4096) mod 64),
       char_of (0x80 + (?r div 64) mod 64), char_of (0x80 + ?r mod 64)]"
    using lower upper by (simp add: runeString_def)
  then have "runeString ?r = [char_of a, char_of b, char_of c, char_of d]"
    by (simp only: split4 [OF m1 m2 lo] a b c d)
  ultimately show ?thesis by blast
qed

lemma decode_complete:
  assumes "DecodeRuneInString (c # cs) \<noteq> (RuneError, 1)"
  shows "\<exists>r rest. validRune r \<and> c # cs = runeString r @ rest"
proof (cases c rule: lead_classes)
  case 1
  then have "validRune (of_char c)" and "runeString (of_char c) = [c]"
    by (simp_all add: validRune_def runeString_def)
  then show ?thesis by (metis append_Cons append_Nil)
next
  case 2
  with assms show ?thesis by (simp add: decode_bad_lead)
next
  case 3
  with assms obtain c1 rest where cs: "cs = c1 # rest" and "contByte 0x80 0xBF c1"
    by (auto simp: decode_two split: list.splits if_splits)
  then obtain r where "validRune r" and "runeString r = [char_of (of_char c :: nat), char_of (of_char c1 :: nat)]"
    using encoded_two [of "of_char c" "of_char c1"] 3 by (auto simp: contByte_def)
  then show ?thesis using cs by (metis append_Cons append_Nil char_of_char)
next
  case 4
  with assms obtain c1 c2 rest where cs: "cs = c1 # c2 # rest"
    and "contByte (if (of_char c :: nat) = 0xE0 then 0xA0 else 0x80)
                  (if (of_char c :: nat) = 0xED then 0x9F else 0xBF) c1"
    and "contByte 0x80 0xBF c2"
    by (auto simp: decode_three split: list.splits if_splits)
  then obtain r where "validRune r"
    and "runeString r = [char_of (of_char c :: nat), char_of (of_char c1 :: nat), char_of (of_char c2 :: nat)]"
    using encoded_three [of "of_char c" "of_char c1" "of_char c2"] 4 by (auto simp: contByte_def)
  then show ?thesis using cs by (metis append_Cons append_Nil char_of_char)
next
  case 5
  with assms obtain c1 c2 c3 rest where cs: "cs = c1 # c2 # c3 # rest"
    and "contByte (if (of_char c :: nat) = 0xF0 then 0x90 else 0x80)
                  (if (of_char c :: nat) = 0xF4 then 0x8F else 0xBF) c1"
    and "contByte 0x80 0xBF c2" and "contByte 0x80 0xBF c3"
    by (auto simp: decode_four split: list.splits if_splits)
  then obtain r where "validRune r"
    and "runeString r = [char_of (of_char c :: nat), char_of (of_char c1 :: nat),
                         char_of (of_char c2 :: nat), char_of (of_char c3 :: nat)]"
    using encoded_four [of "of_char c" "of_char c1" "of_char c2" "of_char c3"] 5 by (auto simp: contByte_def)
  then show ?thesis using cs by (metis append_Cons append_Nil char_of_char)
qed

section \<open>Short style\<close>

text \<open>
  C8.  In short style \<open>usage\<close> writes the short description of the target command and
  the line terminator, and nothing else, whatever \<open>firstCall\<close> is: for every
  non-empty path the trace on the line writer is that single write.
\<close>

theorem usage_short_style:
  assumes "path \<noteq> []" and "style config = styleShort"
  shows "usage X G config ww path firstCall' = Some [Write (Short (last path) @ NL)]"
  using assms by (simp add: usage_def Sprintln_def)

theorem usage_short_style_witness:
  "usage testExtern testGlobals (testConfig\<lparr>style := styleShort\<rparr>) 20 [rootCmd, buildCmd] False
     = Some [Write (''Build it'' @ NL)]"
  using usage_short_style [of "[rootCmd, buildCmd]" "testConfig\<lparr>style := styleShort\<rparr>"
      testExtern testGlobals 20 False]
  by (simp add: buildCmd_def)

section \<open>The width of the name column\<close>











lemma replicate_numeral: "replicate (numeral k) x = x # replicate (pred_numeral k) x"
  by (simp add: numeral_eq_Suc)





section \<open>Hiding global flags\<close>

lemma hidden_after_call:
  "nonHiddenGlobalFlags (HideGlobalFlagsExcept G regexps)
     = Some ((case nonHiddenGlobalFlags G of None \<Rightarrow> [] | Some rs \<Rightarrow> rs) @ regexps)"
  by (cases "nonHiddenGlobalFlags G"; cases regexps) (simp_all add: HideGlobalFlagsExcept_def appendRegexps_def)

lemma globalFlags_after_call: "globalFlags (HideGlobalFlagsExcept G regexps) = globalFlags G"
  by (simp add: HideGlobalFlagsExcept_def)

lemma hide_twice:
  "HideGlobalFlagsExcept (HideGlobalFlagsExcept G rs1) rs2 = HideGlobalFlagsExcept G (rs1 @ rs2)"
proof -
  have "nonHiddenGlobalFlags (HideGlobalFlagsExcept (HideGlobalFlagsExcept G rs1) rs2)
      = nonHiddenGlobalFlags (HideGlobalFlagsExcept G (rs1 @ rs2))"
    by (simp add: hidden_after_call)
  moreover have "HideGlobalFlagsExcept G' rs = G'\<lparr>nonHiddenGlobalFlags := nonHiddenGlobalFlags (HideGlobalFlagsExcept G' rs)\<rparr>"
    for G' rs by (simp add: HideGlobalFlagsExcept_def)
  ultimately show ?thesis
    by (metis (no_types) globals.update_convs(2) globals.surjective globals.simps HideGlobalFlagsExcept_def)
qed

lemma printFlags_shown:
  "printFlags flags st (Some rs) True
     = printFlags (filter (\<lambda>f. list_ex (\<lambda>r. r (flag_Name f)) rs) flags) st None True"
  by (induction flags) (simp_all add: printFlags_def matchRegexps_def)

lemma countFlags_shown:
  "countFlags flags (Some rs) True = length (filter (\<lambda>f. list_ex (\<lambda>r. r (flag_Name f)) rs) flags)"
  by (simp add: countFlags_def matchRegexps_def)

lemma countFlags_all: "countFlags flags None True = length flags" "countFlags flags None False = 0"
  by (simp_all add: countFlags_def matchRegexps_def)

lemma filter_hidden_length:
  "0 < length (filter (\<lambda>f. \<not> P f) xs) \<longleftrightarrow> length (filter P xs) < length xs"
  by (induction xs) (auto simp: less_Suc_eq_le)

lemma countFlags_hidden:
  "0 < countFlags flags (Some rs) False
     \<longleftrightarrow> length (filter (\<lambda>f. list_ex (\<lambda>r. r (flag_Name f)) rs) flags) < length flags"
  using filter_hidden_length [of "\<lambda>f. list_ex (\<lambda>r. r (flag_Name f)) rs" flags]
  by (simp add: countFlags_def matchRegexps_def)

lemma flagsUsage_compact_shown:
  assumes "nonHiddenGlobalFlags G = Some rs" and "style config = styleCompact"
  shows "flagsUsage X G config path True
     = flagsUsage X (G\<lparr>globalFlags := filter (\<lambda>f. list_ex (\<lambda>r. r (flag_Name f)) rs) (globalFlags G),
                       nonHiddenGlobalFlags := None\<rparr>) config path True
       @ (if length (filter (\<lambda>f. list_ex (\<lambda>r. r (flag_Name f)) rs) (globalFlags G)) < length (globalFlags G)
          then [Write NL, Write (Sprintln [fullhelp X config path])] else [])"
  using assms
  by (simp add: flagsUsage_def Let_def countFlags_all countFlags_shown countFlags_hidden printFlags_shown)

text \<open>
  C9.  After any call of \<open>HideGlobalFlagsExcept\<close>, also one with no regular
  expression, the filter is not nil.  Two calls leave what one call with all the regular
  expressions leaves, and so does any sequence of calls.  Starting from the nil filter,
  compact-style \<open>flagsUsage\<close> on the first call then prints what it would print if the
  matching flags were the only global flags, followed by the reminder when some flag
  does not match; and after a single call with no regular expression no global flag is
  printed.
\<close>

theorem hide_global_flags:
  assumes "nonHiddenGlobalFlags G = None" and "style config = styleCompact"
  shows "nonHiddenGlobalFlags (HideGlobalFlagsExcept H regexps) \<noteq> None
    \<and> HideGlobalFlagsExcept (HideGlobalFlagsExcept H rs1) rs2 = HideGlobalFlagsExcept H (rs1 @ rs2)
    \<and> fold (\<lambda>regexps G'. HideGlobalFlagsExcept G' regexps) calls (HideGlobalFlagsExcept G first)
        = HideGlobalFlagsExcept G (first @ concat calls)
    \<and> flagsUsage X (fold (\<lambda>regexps G'. HideGlobalFlagsExcept G' regexps) calls (HideGlobalFlagsExcept G first))
          config path True
        = flagsUsage X (G\<lparr>globalFlags := shownBy (first @ concat calls) (globalFlags G)\<rparr>) config path True
          @ (if length (shownBy (first @ concat calls) (globalFlags G)) < length (globalFlags G)
             then [Write NL, Write (Sprintln [fullhelp X config path])] else [])
    \<and> printFlags (globalFlags G) (style config) (nonHiddenGlobalFlags (HideGlobalFlagsExcept G [])) True = []"
proof (intro conjI)
  show "nonHiddenGlobalFlags (HideGlobalFlagsExcept H regexps) \<noteq> None"
    by (simp add: hidden_after_call)
  show "HideGlobalFlagsExcept (HideGlobalFlagsExcept H rs1) rs2 = HideGlobalFlagsExcept H (rs1 @ rs2)"
    by (rule hide_twice)
  show folded: "fold (\<lambda>regexps G'. HideGlobalFlagsExcept G' regexps) calls (HideGlobalFlagsExcept G first)
        = HideGlobalFlagsExcept G (first @ concat calls)"
    by (induction calls arbitrary: first) (simp_all add: hide_twice)
  have after: "nonHiddenGlobalFlags (HideGlobalFlagsExcept G (first @ concat calls)) = Some (first @ concat calls)"
    using assms(1) by (simp add: hidden_after_call)
  have same: "(HideGlobalFlagsExcept G (first @ concat calls))
        \<lparr>globalFlags := shownBy (first @ concat calls) (globalFlags (HideGlobalFlagsExcept G (first @ concat calls))),
          nonHiddenGlobalFlags := None\<rparr>
      = G\<lparr>globalFlags := shownBy (first @ concat calls) (globalFlags G)\<rparr>"
    using assms(1) by (simp add: HideGlobalFlagsExcept_def)
  show "flagsUsage X (fold (\<lambda>regexps G'. HideGlobalFlagsExcept G' regexps) calls (HideGlobalFlagsExcept G first))
          config path True
        = flagsUsage X (G\<lparr>globalFlags := shownBy (first @ concat calls) (globalFlags G)\<rparr>) config path True
          @ (if length (shownBy (first @ concat calls) (globalFlags G)) < length (globalFlags G)
             then [Write NL, Write (Sprintln [fullhelp X config path])] else [])"
    unfolding folded
    using flagsUsage_compact_shown [OF after assms(2), of X path] same
    by (simp add: shownBy_def globalFlags_after_call)
  show "printFlags (globalFlags G) (style config) (nonHiddenGlobalFlags (HideGlobalFlagsExcept G [])) True = []"
    using assms(1) by (simp add: hidden_after_call printFlags_shown) (simp add: printFlags_def)
qed

theorem hide_global_flags_witness:
  \<open>flagsUsage testExtern
      (fold (\<lambda>regexps G'. HideGlobalFlagsExcept G' regexps) [[]] (HideGlobalFlagsExcept flagGlobals [onlyV]))
      testConfig [buildCmd] True
     = [Write NL, Write (''The global flags are:'' @ NL),
        Write '' -v=false'', SetIndents [''   ''], Write (''Verbose.'' @ NL), SetIndents [],
        Write NL, Write (''Run "CMDLINE_STYLE=full build -help" to show all global flags.'' @ NL)]
   \<and> flagsUsage testExtern (HideGlobalFlagsExcept flagGlobals []) testConfig [buildCmd] True
     = [Write NL, Write (''Run "CMDLINE_STYLE=full build -help" to show all global flags.'' @ NL)]\<close>
proof -
  have nil: "nonHiddenGlobalFlags flagGlobals = None" and compact: "style testConfig = styleCompact"
    by (simp_all add: flagGlobals_def testConfig_def)
  show ?thesis
    using hide_global_flags [OF nil compact, of _ "[]" "[]" "[]" "[[]]" "[onlyV]" testExtern "[buildCmd]"]
      hide_global_flags [OF nil compact, of _ "[]" "[]" "[]" "[]" "[]" testExtern "[buildCmd]"]
    by (simp add: HideGlobalFlagsExcept_def appendRegexps_def shownBy_def flagGlobals_def logFlag_def
        verboseFlag_def onlyV_def flagsUsage_def fullhelp_def countFlags_def printFlags_def matchRegexps_def buildCmd_def testConfig_def
        testExtern_def Sprintln_def spaces_def NL_def Let_def eval_nat_numeral)
qed

section \<open>The godoc header\<close>

lemma firstRuneToUpper_ascii:
  assumes "(of_char c :: nat) < 0x80"
  shows "firstRuneToUpper X (c # rest) =
     (if 0x61 \<le> (of_char c :: nat) \<and> (of_char c :: nat) \<le> 0x7A then char_of (of_char c - 0x20 :: nat) else c) # rest"
  using assms by (auto simp: firstRuneToUpper_def decode_ascii ToUpper_def runeString_def)

lemma firstRuneToUpper_invalid:
  assumes "s \<noteq> []" and "\<not> (\<exists>r rest. validRune r \<and> s = runeString r @ rest)"
  shows "firstRuneToUpper X s = runeString (ToUpper X RuneError) @ tl s"
proof -
  obtain c cs where s: "s = c # cs"
    using assms(1) by (cases s) auto
  have "DecodeRuneInString (c # cs) = (RuneError, 1)"
    using decode_complete [of c cs] assms(2) s by blast
  then show ?thesis
    by (simp add: firstRuneToUpper_def s)
qed

text \<open>
  C7.  For a non-empty path and a non-empty short description, \<open>godocHeader\<close> returns
  the path, \<open>" - "\<close> and the short description with the first rune in upper case when
  the output of \<open>doc.ToHTML\<close> for that line has a heading, and otherwise the path with
  its first rune in upper case.  For \<open>foo bar\<close> and \<open>does a thing\<close> these are
  \<open>Foo bar - does a thing\<close> and \<open>Foo bar\<close>.  Putting the first rune in upper case
  means: an ASCII byte is replaced by its capital when it is a small letter and kept
  otherwise; a string that starts with the encoding of a rune starts with the encoding
  of \<open>unicode.ToUpper\<close> of that rune instead, the rest unchanged (for a two-byte
  encoding the rune is looked up in the case table); and a string that starts with no
  encoding of a rune has its first byte replaced by the encoding of the upper case of
  \<open>RuneError\<close>.
\<close>

theorem godocHeader_both_or_path:
  assumes "path \<noteq> []" and "short \<noteq> []"
  shows
    "godocHeader X path short =
       (if Contains (ToHTML X (''before'' @ NL @ NL @ firstRuneToUpper X (path @ '' - '' @ short)
                               @ NL @ NL @ ''after'')) ''<h''
        then firstRuneToUpper X (path @ '' - '' @ short)
        else firstRuneToUpper X path)
     \<and> godocHeader X ''foo bar'' ''does a thing'' =
       (if Contains (ToHTML X (''before'' @ NL @ NL @ ''Foo bar - does a thing'' @ NL @ NL @ ''after'')) ''<h''
        then ''Foo bar - does a thing''
        else ''Foo bar'')
     \<and> ((of_char c :: nat) < 0x80 \<longrightarrow>
          firstRuneToUpper X (c # rest) =
            (if 0x61 \<le> (of_char c :: nat) \<and> (of_char c :: nat) \<le> 0x7A
             then char_of (of_char c - 0x20 :: nat) else c) # rest)
     \<and> (r < 0xD800 \<or> (0xDFFF < r \<and> r \<le> 0x10FFFF) \<longrightarrow>
          firstRuneToUpper X (runeString r @ rest) = runeString (ToUpper X r) @ rest)
     \<and> (0x80 \<le> r \<and> r < 0x800 \<longrightarrow>
          firstRuneToUpper X (char_of (0xC0 + r div 64) # char_of (0x80 + r mod 64) # rest)
            = runeString (upperTable X r) @ rest)
     \<and> (s \<noteq> [] \<and> \<not> (\<exists>r rest. (r < 0xD800 \<or> (0xDFFF < r \<and> r \<le> 0x10FFFF)) \<and> s = runeString r @ rest) \<longrightarrow>
          firstRuneToUpper X s = runeString (ToUpper X RuneError) @ tl s)"
proof (intro conjI)
  show "godocHeader X path short =
       (if Contains (ToHTML X (''before'' @ NL @ NL @ firstRuneToUpper X (path @ '' - '' @ short)
                               @ NL @ NL @ ''after'')) ''<h''
        then firstRuneToUpper X (path @ '' - '' @ short)
        else firstRuneToUpper X path)"
    using assms by (simp add: godocHeader_def Let_def)
next
  have up: "firstRuneToUpper X (''foo bar'' @ tail) = ''Foo bar'' @ tail" for tail
    by (simp add: firstRuneToUpper_ascii char_of_def bit_0)
  have "firstRuneToUpper X ''foo bar'' = ''Foo bar''"
    using up [of "[]"] by simp
  moreover have "firstRuneToUpper X (''foo bar'' @ '' - '' @ ''does a thing'') = ''Foo bar - does a thing''"
    using up [of "'' - does a thing''"] by simp
  ultimately show "godocHeader X ''foo bar'' ''does a thing'' =
       (if Contains (ToHTML X (''before'' @ NL @ NL @ ''Foo bar - does a thing'' @ NL @ NL @ ''after'')) ''<h''
        then ''Foo bar - does a thing''
        else ''Foo bar'')"
    by (simp add: godocHeader_def Let_def)
next
  show "(of_char c :: nat) < 0x80 \<longrightarrow>
          firstRuneToUpper X (c # rest) =
            (if 0x61 \<le> (of_char c :: nat) \<and> (of_char c :: nat) \<le> 0x7A
             then char_of (of_char c - 0x20 :: nat) else c) # rest"
    using firstRuneToUpper_ascii by blast
next
  show "r < 0xD800 \<or> (0xDFFF < r \<and> r \<le> 0x10FFFF) \<longrightarrow>
          firstRuneToUpper X (runeString r @ rest) = runeString (ToUpper X r) @ rest"
    using firstRuneToUpper_valid [of r X rest] by (simp add: validRune_def)
next
  show "0x80 \<le> r \<and> r < 0x800 \<longrightarrow>
          firstRuneToUpper X (char_of (0xC0 + r div 64) # char_of (0x80 + r mod 64) # rest)
            = runeString (upperTable X r) @ rest"
    by (simp add: firstRuneToUpper_def decode_encoded_two ToUpper_def)
next
  show "s \<noteq> [] \<and> \<not> (\<exists>r rest. (r < 0xD800 \<or> (0xDFFF < r \<and> r \<le> 0x10FFFF)) \<and> s = runeString r @ rest) \<longrightarrow>
          firstRuneToUpper X s = runeString (ToUpper X RuneError) @ tl s"
    using firstRuneToUpper_invalid [of s X] by (simp add: validRune_def)
qed

theorem godocHeader_both_or_path_witness:
  "godocHeader (testExtern\<lparr>upperTable := (\<lambda>r. if r = 0xE9 then 0xC9 else r)\<rparr>)
       ([CHR 0xC3, CHR 0xA9] @ ''cole'') ''Learn''
     = [CHR 0xC3, CHR 0x89] @ ''cole - Learn''
   \<and> godocHeader testExtern ''root build'' ''Build it'' = ''Root build - Build it''
   \<and> godocHeader testExtern ''root build'' ''Usage: build'' = ''Root build''
   \<and> firstRuneToUpper testExtern (CHR 0xFF # ''abc'') = [CHR 0xEF, CHR 0xBF, CHR 0xBD] @ ''abc''"
proof -
  let ?X = "testExtern\<lparr>upperTable := (\<lambda>r. if r = 0xE9 then 0xC9 else r)\<rparr>"
  have e: "[CHR 0xC3, CHR 0xA9] @ ''cole'' \<noteq> []" "''root build'' \<noteq> []"
    and d: "''Learn'' \<noteq> []" "''Build it'' \<noteq> []" "''Usage: build'' \<noteq> []"
    by simp_all
  have two: "firstRuneToUpper ?X (CHR 0xC3 # CHR 0xA9 # tail) = CHR 0xC3 # CHR 0x89 # tail" for tail
    using godocHeader_both_or_path [OF e(1) d(1), where X = ?X and r = "0xE9" and rest = tail,
        THEN conjunct2, THEN conjunct2, THEN conjunct2, THEN conjunct2, THEN conjunct1]
    by (simp add: runeString_def char_of_def bit_0)
  have low: "firstRuneToUpper testExtern (CHR ''r'' # tail) = CHR ''R'' # tail" for tail
    using godocHeader_both_or_path [OF e(2) d(2), where X = testExtern and c = "CHR ''r''" and rest = tail,
        THEN conjunct2, THEN conjunct2, THEN conjunct1]
    by (simp add: char_of_def bit_0)
  have bad: "firstRuneToUpper testExtern (CHR 0xFF # ''abc'') = [CHR 0xEF, CHR 0xBF, CHR 0xBD] @ ''abc''"
    by (simp add: firstRuneToUpper_def decode_bad_lead ToUpper_def RuneError_def testExtern_def
        runeString_def char_of_def bit_0)
  have html: "ToHTML ?X = ToHTML testExtern"
    "ToHTML testExtern = (\<lambda>s. if list_ex (\<lambda>c. c \<in> set forbiddenInHeading) s
                                 then ''<p>before</p><p>line</p><p>after</p>''
                                 else ''<p>before</p><h3>line</h3><p>after</p>'')"
    by (simp_all add: testExtern_def)
  show ?thesis
    using godocHeader_both_or_path [OF e(1) d(1), where X = ?X, THEN conjunct1]
      godocHeader_both_or_path [OF e(2) d(2), where X = testExtern, THEN conjunct1]
      godocHeader_both_or_path [OF e(2) d(3), where X = testExtern, THEN conjunct1]
    by (simp add: two low bad html Contains_def forbiddenInHeading_def NL_def)
qed

section \<open>Evaluating the renderer on the examples\<close>

lemmas render_defs =
  usage_def usageHeader_def usageLine_def commandTable_def commandHeader_def commandFooter_def
  argsSection_def topicTable_def topicHeader_def topicFooter_def flagsUsage_def fullhelp_def
  cmdPathF_def subCmdsOf_def nameWidth_def topicWidth_def minNameWidth_def printShort_def binaryRow_def
  SprintfRow_def tooLarge_def badWidthString_def
  shortEnv_def captured_def countFlags_def printFlags_def matchRegexps_def needsHelpChild_def
  lineBreak_def godocHeader_def Contains_def forbiddenInHeading_def
  TrimPrefix_def padRight_def spaces_def Sprintln_def NL_def helpName_def missingDescription_def
  newCommand_def binaryDump_def dumpEnv_def topicDump_def Let_def
  DecodeRuneInString.simps contByte_def replicate_numeral

lemma upper_r: "firstRuneToUpper X (CHR ''r'' # s) = CHR ''R'' # s"
  by (simp add: firstRuneToUpper_ascii char_of_def bit_0)

lemmas fixture_defs =
  testExtern_def testEnv_def testConfig_def testGlobals_def buildCmd_def verboseFlag_def guideTopic_def
  rootCmd_def lookCmd_def

lemma usage_rootCmd:
  \<open>usage testExtern testGlobals testConfig 20 [rootCmd] True =
       Some [Write (''Root is the tool.'' @ NL), Write NL, Write (''Usage:'' @ NL),
             Write (''   root [flags] <command>'' @ NL), Write NL, Write (''The root commands are:'' @ NL),
             SetIndents [''   '', ''               ''],
             Write ''build       Build it'', Flush,
             Write (''extra       Extra tools'' @ NL @ ''second line'' @ NL), Flush,
             Write ''help        Display help for commands or topics'', Flush,
             SetIndents [], Write (''Run "root help [command]" for command usage.'' @ NL),
             Write NL, Write (''The root additional help topics are:'' @ NL),
             SetIndents [''   '', ''               ''],
             Write ''guide       A guide'', Flush,
             SetIndents [], Write (''Run "root help [topic]" for topic details.'' @ NL),
             Write NL, Write (''The root flags are:'' @ NL),
             Write '' -v=false'', SetIndents [''   ''], Write (''Verbose.'' @ NL), SetIndents []]\<close>
  by (simp add: render_defs fixture_defs)

section \<open>The help dispatcher\<close>

text \<open>
  C10.  When the segment is not taken by an earlier rule of the dispatcher (it is not
  \<open>...\<close>, names no built-in child, is not \<open>help\<close> and resolves to no external
  binary) and names a topic of the current node, \<open>runHelp\<close> writes the long text of
  that topic and returns nil, whatever segments follow: they are ignored.
\<close>

theorem runHelp_topic:
  assumes "path \<noteq> []" and "subName \<noteq> ''...''" and "subName \<noteq> helpName"
    and "find (\<lambda>child. Name child = subName) (Children (last path)) = None"
    and "\<not> (LookPath (last path) \<and> lookPath X (Name (last path) @ ''-'' @ subName) (pathDirs X (env config)))"
    and "find (\<lambda>t. topic_Name t = subName) (Topics (last path)) = Some t"
  shows "runHelp X G config ww stderr (subName # subArgs) path = Some (None, [OnW (Write (topic_Long t @ NL))])"
  using assms by (auto simp: Sprintln_def)

theorem runHelp_topic_witness:
  "runHelp testExtern testGlobals testConfig 20 OsStderr [''guide'', ''no'', ''such'', ''thing''] [rootCmd]
     = Some (None, [OnW (Write (''The long guide.'' @ NL))])"
  using runHelp_topic [of "[rootCmd]" "''guide''" testExtern testConfig guideTopic testGlobals 20 OsStderr
      "[''no'', ''such'', ''thing'']"]
  by (simp add: rootCmd_def buildCmd_def guideTopic_def helpName_def testExtern_def)

text \<open>
  C4.  When the dispatcher resolves the segment to an external binary (no earlier rule
  takes it, the node has \<open>LookPath\<close> set and the executable named after the node and
  the segment is on the search path), it runs that binary in a copy of the environment
  with \<open>CMDLINE_STYLE\<close> set to the name of the style, with the argument \<open>-help\<close>
  when no segment is left and with \<open>help\<close> and the remaining segments otherwise.  The
  error of that run is the error of \<open>runHelp\<close>, and what the process writes goes to
  the streams of the environment unchanged.
\<close>

theorem runHelp_external_binary:
  assumes "path \<noteq> []" and "subName \<noteq> ''...''" and "subName \<noteq> helpName"
    and "find (\<lambda>child. Name child = subName) (Children (last path)) = None"
    and "LookPath (last path)"
    and "lookPath X (Name (last path) @ ''-'' @ subName) (pathDirs X (env config))"
  shows "runHelp X G config ww stderr (subName # subArgs) path =
     (let childEnv = (env config)\<lparr>Vars := (Vars (env config))(''CMDLINE_STYLE'' \<mapsto> styleString X (style config))\<rparr>;
          r = runBinary X (Name (last path) @ ''-'' @ subName) (pathName X (prefix X (env config)) path) childEnv
                (if subArgs = [] then [''-help''] else ''help'' # subArgs)
      in Some (proc_err r, map (inherited childEnv) (proc_out r)))"
  using assms by (simp add: Let_def delegateEnv_def helpName_def)

theorem runHelp_external_binary_witness:
  "runHelp testExtern testGlobals testConfig 20 OsStderr [''extra''] [rootCmd]
     = Some (Some (ExecError ''exit status 2''),
             [ToWriter OsStdout (''extra usage'' @ NL), ToWriter OsStderr (''failed'' @ NL)])
   \<and> runHelp testExtern testGlobals testConfig 20 OsStderr [''extra'', ''sub''] [rootCmd]
     = Some (Some (ExecError ''exit status 1''), [ToWriter OsStderr (''no help'' @ NL)])"
  using runHelp_external_binary [of "[rootCmd]" "''extra''" testExtern testConfig testGlobals 20 OsStderr "[]"]
    runHelp_external_binary [of "[rootCmd]" "''extra''" testExtern testConfig testGlobals 20 OsStderr "[''sub'']"]
  by (simp add: rootCmd_def buildCmd_def helpName_def testExtern_def testConfig_def testEnv_def inherited_def)

text \<open>
  C5.  When the segment matches no built-in child, is not \<open>help\<close>, resolves to no
  external binary and names no topic, \<open>runHelp\<close> fails through \<open>usageErrorf\<close>: the
  error carries the message made of the path name, \<open>: unknown command or topic\<close> and
  the quoted segment, the message is written to the error stream, and the usage of the
  node follows on a line writer over that stream.  That usage is what \<open>usage\<close>
  writes for the node: the short description in short style, and otherwise a text that
  has the long description and the \<open>Usage:\<close> line.
\<close>

theorem runHelp_unknown:
  assumes "path \<noteq> []" and "subName \<noteq> ''...''" and "subName \<noteq> helpName"
    and "find (\<lambda>child. Name child = subName) (Children (last path)) = None"
    and "\<not> (LookPath (last path) \<and> lookPath X (Name (last path) @ ''-'' @ subName) (pathDirs X (env config)))"
    and "find (\<lambda>t. topic_Name t = subName) (Topics (last path)) = None"
  shows "\<exists>shown. usage X G config (width config) path (firstCall X (env config)) = Some shown
     \<and> runHelp X G config ww stderr (subName # subArgs) path =
         Some (Some (ErrUsage (pathName X (prefix X (env config)) path @ '': unknown command or topic ''
                               @ quote X subName)),
               ToWriter stderr (pathName X (prefix X (env config)) path @ '': unknown command or topic ''
                                @ quote X subName)
               # map (OnLineWriter stderr (width config)) (shown @ [Flush]))
     \<and> (if style config = styleShort then shown = [Write (Short (last path) @ NL)]
        else \<exists>pre post. shown = pre @ [Write (Long (last path) @ NL), Write NL, Write (''Usage:'' @ NL)] @ post)"
proof (cases "style config = styleShort")
  case True
  then have "usage X G config (width config) path (firstCall X (env config)) = Some [Write (Short (last path) @ NL)]"
    using assms(1) by (simp add: usage_def Sprintln_def)
  then show ?thesis
    using assms True by (auto simp: usageErrorf_def usageFunc_def)
next
  case False
  let ?cmd = "last path" and ?cmdPath = "pathName X (prefix X (env config)) path"
  let ?fc = "firstCall X (env config)"
  let ?pre = "if \<not> ?fc
      then lineBreak X (width config) (style config)
           @ [ForceVerbatim True, Write (Sprintln [godocHeader X ?cmdPath (Short ?cmd)]),
              ForceVerbatim False, Write NL]
      else []"
  let ?post = "(if Runner ?cmd \<noteq> None
      then (if ArgsName ?cmd \<noteq> [] then [Write (Sprintln [cmdPathF ?cmd ?cmdPath, ArgsName ?cmd])]
            else [Write (Sprintln [cmdPathF ?cmd ?cmdPath])])
      else []) @
     (if 0 < length (subCmdsOf X config ?cmd) \<or> 0 < length (Children ?cmd)
      then [Write (Sprintln [cmdPathF ?cmd ?cmdPath, ''<command>''])]
      else [])
     @ commandTable X config path ?cmd ?cmdPath (subCmdsOf X config ?cmd) ?fc
     @ argsSection ?cmd @ topicTable config ?cmd ?cmdPath ?fc @ flagsUsage X G config path ?fc"
  define shown where "shown = ?pre @ [Write (Long ?cmd @ NL), Write NL, Write (''Usage:'' @ NL)] @ ?post"
  have u: "usage X G config (width config) path ?fc = Some shown"
    unfolding shown_def using assms(1) False
    by (simp add: usage_def usageHeader_def usageLine_def Sprintln_def Let_def)
  have r: "runHelp X G config ww stderr (subName # subArgs) path =
         Some (Some (ErrUsage (?cmdPath @ '': unknown command or topic '' @ quote X subName)),
               ToWriter stderr (?cmdPath @ '': unknown command or topic '' @ quote X subName)
               # map (OnLineWriter stderr (width config)) (shown @ [Flush]))"
    using assms u by (auto simp: usageErrorf_def usageFunc_def)
  have s: "\<exists>pre post. shown = pre @ [Write (Long ?cmd @ NL), Write NL, Write (''Usage:'' @ NL)] @ post"
    unfolding shown_def by blast
  show ?thesis
    by (intro exI [of _ shown] conjI) (simp_all only: u r s False if_False)
qed

theorem runHelp_unknown_witness:
  \<open>runHelp testExtern testGlobals testConfig 80 OsStderr [''deploy''] [rootCmd] =
     Some (Some (ErrUsage ''root: unknown command or topic "deploy"''),
           ToWriter OsStderr ''root: unknown command or topic "deploy"''
           # map (OnLineWriter OsStderr 20)
               [Write (''Root is the tool.'' @ NL), Write NL, Write (''Usage:'' @ NL),
                Write (''   root [flags] <command>'' @ NL), Write NL, Write (''The root commands are:'' @ NL),
                SetIndents [''   '', ''               ''],
                Write ''build       Build it'', Flush,
                Write (''extra       Extra tools'' @ NL @ ''second line'' @ NL), Flush,
                Write ''help        Display help for commands or topics'', Flush,
                SetIndents [], Write (''Run "root help [command]" for command usage.'' @ NL),
                Write NL, Write (''The root additional help topics are:'' @ NL),
                SetIndents [''   '', ''               ''],
                Write ''guide       A guide'', Flush,
                SetIndents [], Write (''Run "root help [topic]" for topic details.'' @ NL),
                Write NL, Write (''The root flags are:'' @ NL),
                Write '' -v=false'', SetIndents [''   ''], Write (''Verbose.'' @ NL), SetIndents [],
                Flush])\<close>
proof -
  have w: "width testConfig = 20" and f: "firstCall testExtern (env testConfig)"
    by (simp_all add: testConfig_def testExtern_def testEnv_def)
  obtain shown where
    "usage testExtern testGlobals testConfig (width testConfig) [rootCmd] (firstCall testExtern (env testConfig))
       = Some shown"
    and run: "runHelp testExtern testGlobals testConfig 80 OsStderr [''deploy''] [rootCmd] =
         Some (Some (ErrUsage (pathName testExtern (prefix testExtern (env testConfig)) [rootCmd]
                               @ '': unknown command or topic '' @ quote testExtern ''deploy'')),
               ToWriter OsStderr (pathName testExtern (prefix testExtern (env testConfig)) [rootCmd]
                                  @ '': unknown command or topic '' @ quote testExtern ''deploy'')
               # map (OnLineWriter OsStderr (width testConfig)) (shown @ [Flush]))"
    using runHelp_unknown [of "[rootCmd]" "''deploy''" testExtern testConfig testGlobals 80 OsStderr "[]"]
    by (auto simp: rootCmd_def buildCmd_def guideTopic_def helpName_def testExtern_def)
  then have "shown = the (usage testExtern testGlobals testConfig 20 [rootCmd] True)"
    using w f by simp
  then show ?thesis
    unfolding run usage_rootCmd w
    by (simp add: testExtern_def rootCmd_def)
qed

section \<open>The synthesized help command\<close>

lemma usage_total:
  assumes "path \<noteq> []"
  shows "\<exists>shown. usage X G config ww path fc = Some shown"
  using assms by (cases "style config = styleShort") (simp_all add: usage_def Let_def)

lemma those_map_total:
  assumes "\<And>x. x \<in> set xs \<Longrightarrow> \<exists>y. f x = Some y"
  shows "\<exists>ys. those (map f xs) = Some ys"
  using assms
proof (induction xs)
  case Nil
  then show ?case by simp
next
  case (Cons x xs)
  then obtain y ys where "f x = Some y" and "those (map f xs) = Some ys"
    by (meson list.set_intros)
  then show ?case by simp
qed

lemma usageAll_total:
  "path \<noteq> [] \<Longrightarrow> \<exists>dump. usageAll X G config ww path fc = Some dump"
proof (induction X G config ww path fc rule: usageAll.induct)
  case (1 X G config ww path fc)
  obtain own where own: "usage X G config ww path fc = Some own"
    using usage_total [OF "1.prems"] by blast
  have "\<exists>y. usageAll X G config ww (path @ [child]) False = Some y"
    if "child \<in> set (Children (last path))" for child
    using "1.IH"(1) [OF "1.prems" own that] by simp
  then obtain children where children:
    "those (map (\<lambda>child. usageAll X G config ww (path @ [child]) False) (Children (last path))) = Some children"
    using those_map_total [of "Children (last path)" "\<lambda>child. usageAll X G config ww (path @ [child]) False"]
    by blast
  have "\<exists>hd. (if fc \<and> needsHelpChild (last path)
               then usageAll X G config ww (path @ [newCommand X path config]) False
               else Some []) = Some hd"
    using "1.IH"(2) [OF "1.prems" own children] by simp
  then obtain hd where hd:
    "(if fc \<and> needsHelpChild (last path)
      then usageAll X G config ww (path @ [newCommand X path config]) False
      else Some []) = Some hd"
    by blast
  show ?case
    by (subst usageAll.simps) (simp add: "1.prems" own children hd)
qed

lemma usageAll_starts_with_usage:
  assumes "path \<noteq> []"
  shows "\<exists>shown rest. usage X G config ww path fc = Some shown
           \<and> usageAll X G config ww path fc = Some (shown @ rest)"
proof -
  obtain dump where dump: "usageAll X G config ww path fc = Some dump"
    using usageAll_total [OF assms] by blast
  show ?thesis
    using dump assms unfolding usageAll.simps [of X G config ww path fc]
    by (auto simp: bind_eq_Some_conv)
qed

lemma usageAll_help_dump:
  assumes "path \<noteq> []" and "needsHelpChild (last path)"
  shows "\<exists>pre hd post. usageAll X G config ww (path @ [newCommand X path config]) False = Some hd
           \<and> usageAll X G config ww path True = Some (pre @ hd @ post)"
proof -
  let ?B = "if LookPath (last path)
            then concat (map (binaryDump X config ww (last path) (pathName X (prefix X (env config)) path))
                           (lookPathAll X (Name (last path)) (pathDirs X (env config)) (subNames X (last path))))
            else []"
  let ?T = "concat (map (topicDump X config ww (pathName X (prefix X (env config)) path)) (Topics (last path)))"
  obtain dump where dump: "usageAll X G config ww path True = Some dump"
    using usageAll_total [OF assms(1)] by blast
  from dump assms obtain own children hd
    where hd: "usageAll X G config ww (path @ [newCommand X path config]) False = Some hd"
      and "dump = own @ concat children @ ?B @ hd @ ?T"
    unfolding usageAll.simps [of X G config ww path True]
    by (auto simp: bind_eq_Some_conv)
  with dump have "usageAll X G config ww path True = Some ((own @ concat children @ ?B) @ hd @ ?T)"
    by simp
  with hd show ?thesis by blast
qed

lemma usageAll_leaf:
  assumes "path \<noteq> []" and "Children (last path) = []"
  shows "\<exists>own. usage X G config ww path fc = Some own
     \<and> usageAll X G config ww path fc =
         Some (own
               @ (if LookPath (last path)
                  then concat (map (binaryDump X config ww (last path) (pathName X (prefix X (env config)) path))
                                 (lookPathAll X (Name (last path)) (pathDirs X (env config))
                                    (subNames X (last path))))
                  else [])
               @ concat (map (topicDump X config ww (pathName X (prefix X (env config)) path))
                           (Topics (last path))))"
proof -
  obtain own where own: "usage X G config ww path fc = Some own"
    using usage_total [OF assms(1)] by blast
  have "\<not> needsHelpChild (last path)"
    using assms(2) by (simp add: needsHelpChild_def)
  then show ?thesis
    using assms own unfolding usageAll.simps [of X G config ww path fc] by simp
qed

text \<open>
  C1 (amended).  For every node with at least one built-in child and no child named
  \<open>help\<close>, the help command is synthesized on the first call: outside short style
  \<open>usage\<close> writes its row in the sub-command table, and \<open>usageAll\<close> dumps the
  usage of the synthesized command inside the dump of the node.  The external-search
  flag plays no part.  For every node with no built-in child, whatever its flag, the
  table of \<open>usage\<close> holds the rows of the discovered binaries and no other row, and
  the dump of \<open>usageAll\<close> is the usage of the node followed by the dumps of the
  discovered binaries (when the flag is set) and of the topics: no help command is
  dumped.
\<close>

theorem help_synthesized:
  assumes "path \<noteq> []"
  shows
    "(0 < length (Children (last path))
        \<and> \<not> list_ex (\<lambda>child. Name child = helpName) (Children (last path)) \<longrightarrow>
      (style config \<noteq> styleShort \<longrightarrow>
         (\<exists>pre post. usage X G config ww path True =
            Some (pre @ printShort (nameWidth (last path) (subCmdsOf X config (last path)))
                          (Name (newCommand X path config)) (Short (newCommand X path config))
                      @ post)))
      \<and> (\<exists>pre shown post.
             usage X G config ww (path @ [newCommand X path config]) False = Some shown
             \<and> usageAll X G config ww path True = Some (pre @ shown @ post)))
     \<and> (Children (last path) = [] \<longrightarrow>
      (style config \<noteq> styleShort \<longrightarrow>
         usage X G config ww path True =
           Some (usageHeader X config ww (last path) (pathName X (prefix X (env config)) path) True
                 @ usageLine (last path) (pathName X (prefix X (env config)) path)
                     (subCmdsOf X config (last path))
                 @ (if subCmdsOf X config (last path) \<noteq> []
                    then commandHeader (pathName X (prefix X (env config)) path)
                           (nameWidth (last path) (subCmdsOf X config (last path)))
                    else [])
                 @ concat (map (binaryRow X config (last path) (pathName X (prefix X (env config)) path)
                                  (nameWidth (last path) (subCmdsOf X config (last path))))
                             (subCmdsOf X config (last path)))
                 @ (if subCmdsOf X config (last path) \<noteq> []
                    then commandFooter config (pathName X (prefix X (env config)) path) True
                    else [])
                 @ argsSection (last path)
                 @ topicTable config (last path) (pathName X (prefix X (env config)) path) True
                 @ flagsUsage X G config path True))
      \<and> (\<exists>own. usage X G config ww path True = Some own
            \<and> usageAll X G config ww path True =
                Some (own
                      @ (if LookPath (last path)
                         then concat (map (binaryDump X config ww (last path)
                                             (pathName X (prefix X (env config)) path))
                                        (lookPathAll X (Name (last path)) (pathDirs X (env config))
                                           (subNames X (last path))))
                         else [])
                      @ concat (map (topicDump X config ww (pathName X (prefix X (env config)) path))
                                  (Topics (last path))))))"
proof (intro conjI impI)
  assume kids: "0 < length (Children (last path))
        \<and> \<not> list_ex (\<lambda>child. Name child = helpName) (Children (last path))"
  then have needs: "needsHelpChild (last path)"
    by (simp add: needsHelpChild_def)
  {
    assume long: "style config \<noteq> styleShort"
    let ?cmd = "last path" and ?cmdPath = "pathName X (prefix X (env config)) path"
    let ?subCmds = "subCmdsOf X config (last path)"
    let ?wid = "nameWidth ?cmd ?subCmds"
    let ?pre = "usageHeader X config ww ?cmd ?cmdPath True @ usageLine ?cmd ?cmdPath ?subCmds
        @ commandHeader ?cmdPath ?wid
        @ concat (map (\<lambda>child. printShort ?wid (Name child) (Short child)) (Children ?cmd))
        @ concat (map (binaryRow X config ?cmd ?cmdPath ?wid) ?subCmds)"
    let ?post = "commandFooter config ?cmdPath True @ argsSection ?cmd @ topicTable config ?cmd ?cmdPath True
        @ flagsUsage X G config path True"
    have "usage X G config ww path True =
        Some (?pre @ printShort ?wid (Name (newCommand X path config)) (Short (newCommand X path config)) @ ?post)"
      using assms kids needs long by (simp add: usage_def commandTable_def Let_def)
    then show "\<exists>pre post. usage X G config ww path True =
        Some (pre @ printShort ?wid (Name (newCommand X path config)) (Short (newCommand X path config)) @ post)"
      by blast
  }
  obtain pre hd post where hd: "usageAll X G config ww (path @ [newCommand X path config]) False = Some hd"
    and dump: "usageAll X G config ww path True = Some (pre @ hd @ post)"
    using usageAll_help_dump [OF assms needs] by blast
  obtain shown rest where shown: "usage X G config ww (path @ [newCommand X path config]) False = Some shown"
    and "usageAll X G config ww (path @ [newCommand X path config]) False = Some (shown @ rest)"
    using usageAll_starts_with_usage [of "path @ [newCommand X path config]"] by blast
  with hd have "hd = shown @ rest" by simp
  with dump have "usageAll X G config ww path True = Some (pre @ shown @ (rest @ post))" by simp
  with shown show "\<exists>pre shown post.
             usage X G config ww (path @ [newCommand X path config]) False = Some shown
             \<and> usageAll X G config ww path True = Some (pre @ shown @ post)"
    by blast
next
  assume leaf: "Children (last path) = []" and long: "style config \<noteq> styleShort"
  then have "\<not> needsHelpChild (last path)"
    by (simp add: needsHelpChild_def)
  then show "usage X G config ww path True =
           Some (usageHeader X config ww (last path) (pathName X (prefix X (env config)) path) True
                 @ usageLine (last path) (pathName X (prefix X (env config)) path)
                     (subCmdsOf X config (last path))
                 @ (if subCmdsOf X config (last path) \<noteq> []
                    then commandHeader (pathName X (prefix X (env config)) path)
                           (nameWidth (last path) (subCmdsOf X config (last path)))
                    else [])
                 @ concat (map (binaryRow X config (last path) (pathName X (prefix X (env config)) path)
                                  (nameWidth (last path) (subCmdsOf X config (last path))))
                             (subCmdsOf X config (last path)))
                 @ (if subCmdsOf X config (last path) \<noteq> []
                    then commandFooter config (pathName X (prefix X (env config)) path) True
                    else [])
                 @ argsSection (last path)
                 @ topicTable config (last path) (pathName X (prefix X (env config)) path) True
                 @ flagsUsage X G config path True)"
    using assms leaf long by (simp add: usage_def commandTable_def Let_def)
next
  assume leaf: "Children (last path) = []"
  show "\<exists>own. usage X G config ww path True = Some own
            \<and> usageAll X G config ww path True =
                Some (own
                      @ (if LookPath (last path)
                         then concat (map (binaryDump X config ww (last path)
                                             (pathName X (prefix X (env config)) path))
                                        (lookPathAll X (Name (last path)) (pathDirs X (env config))
                                           (subNames X (last path))))
                         else [])
                      @ concat (map (topicDump X config ww (pathName X (prefix X (env config)) path))
                                  (Topics (last path))))"
    by (rule usageAll_leaf [OF assms leaf])
qed

theorem help_synthesized_witness:
  \<open>(\<exists>pre post. usage testExtern testGlobals testConfig 20 [rootCmd] True =
       Some (pre @ [Write ''help        Display help for commands or topics'', Flush] @ post))
   \<and> (\<exists>pre shown post.
         usage testExtern testGlobals testConfig 20 [rootCmd, newCommand testExtern [rootCmd] testConfig] False
           = Some shown
         \<and> usageAll testExtern testGlobals testConfig 20 [rootCmd] True = Some (pre @ shown @ post))
   \<and> (\<exists>own. usage testExtern testGlobals testConfig 20 [lookCmd] True = Some own
         \<and> usageAll testExtern testGlobals testConfig 20 [lookCmd] True =
             Some (own @ [Flush, Write (''===================='' @ NL), Flush,
                          Write (''Root extra - No description available'' @ NL)]))\<close>
proof -
  have row: "printShort (nameWidth rootCmd (subCmdsOf testExtern testConfig rootCmd))
               (Name (newCommand testExtern [rootCmd] testConfig))
               (Short (newCommand testExtern [rootCmd] testConfig))
      = [Write ''help        Display help for commands or topics'', Flush]"
    by (simp add: render_defs fixture_defs)
  have dump: "concat (map (binaryDump testExtern testConfig 20 lookCmd
                             (pathName testExtern (prefix testExtern (env testConfig)) [lookCmd]))
                        (lookPathAll testExtern (Name lookCmd) (pathDirs testExtern (env testConfig))
                           (subNames testExtern lookCmd)))
      = [Flush, Write (''===================='' @ NL), Flush,
         Write (''Root extra - No description available'' @ NL)]"
    by (simp add: render_defs fixture_defs upper_r)
  have leaf: "Children lookCmd = []" "LookPath lookCmd" "Topics lookCmd = []"
    by (simp_all add: lookCmd_def)
  show ?thesis
    using help_synthesized [of "[rootCmd]" testConfig testExtern testGlobals 20, THEN conjunct1]
      help_synthesized [of "[lookCmd]" testConfig testExtern testGlobals 20, THEN conjunct2]
    by (simp add: row dump leaf)
      (simp add: rootCmd_def buildCmd_def helpName_def testConfig_def)
qed

text \<open>
  The node \<open>lookCmd\<close> has the external-search flag set, no built-in child and a
  discovered binary: \<open>needsHelpChild\<close> is false, the table has the row of the binary
  and no help row, and the recursive dump has no section for a help command.
\<close>

theorem help_synthesized_counterexample:
  \<open>LookPath lookCmd
   \<and> \<not> list_ex (\<lambda>child. Name child = helpName) (Children lookCmd)
   \<and> \<not> needsHelpChild lookCmd
   \<and> usage testExtern testGlobals testConfig 20 [lookCmd] True =
       Some [Write (''Root is the tool.'' @ NL), Write NL, Write (''Usage:'' @ NL),
             Write (''   root <command>'' @ NL), Write NL, Write (''The root commands are:'' @ NL),
             SetIndents [''   '', ''               ''],
             Write (''extra       Extra tools'' @ NL @ ''second line'' @ NL), Flush,
             SetIndents [], Write (''Run "root help [command]" for command usage.'' @ NL)]
   \<and> usageAll testExtern testGlobals testConfig 20 [lookCmd] True =
       Some [Write (''Root is the tool.'' @ NL), Write NL, Write (''Usage:'' @ NL),
             Write (''   root <command>'' @ NL), Write NL, Write (''The root commands are:'' @ NL),
             SetIndents [''   '', ''               ''],
             Write (''extra       Extra tools'' @ NL @ ''second line'' @ NL), Flush,
             SetIndents [], Write (''Run "root help [command]" for command usage.'' @ NL),
             Flush, Write (''===================='' @ NL), Flush,
             Write (''Root extra - No description available'' @ NL)]\<close>
proof (intro conjI)
  show "LookPath lookCmd" by (simp add: lookCmd_def)
  show "\<not> list_ex (\<lambda>child. Name child = helpName) (Children lookCmd)" by (simp add: lookCmd_def)
  show "\<not> needsHelpChild lookCmd" by (simp add: lookCmd_def needsHelpChild_def)
  show \<open>usage testExtern testGlobals testConfig 20 [lookCmd] True =
       Some [Write (''Root is the tool.'' @ NL), Write NL, Write (''Usage:'' @ NL),
             Write (''   root <command>'' @ NL), Write NL, Write (''The root commands are:'' @ NL),
             SetIndents [''   '', ''               ''],
             Write (''extra       Extra tools'' @ NL @ ''second line'' @ NL), Flush,
             SetIndents [], Write (''Run "root help [command]" for command usage.'' @ NL)]\<close>
    by (simp add: render_defs fixture_defs)
  show \<open>usageAll testExtern testGlobals testConfig 20 [lookCmd] True =
       Some [Write (''Root is the tool.'' @ NL), Write NL, Write (''Usage:'' @ NL),
             Write (''   root <command>'' @ NL), Write NL, Write (''The root commands are:'' @ NL),
             SetIndents [''   '', ''               ''],
             Write (''extra       Extra tools'' @ NL @ ''second line'' @ NL), Flush,
             SetIndents [], Write (''Run "root help [command]" for command usage.'' @ NL),
             Flush, Write (''===================='' @ NL), Flush,
             Write (''Root extra - No description available'' @ NL)]\<close>
    by (subst usageAll.simps) (simp add: render_defs fixture_defs upper_r)
qed

section \<open>The usage line\<close>

lemma cmdPathF_own_flags:
  "cmdPathF cmd cmdPath = ''   '' @ cmdPath @ (if Flags cmd \<noteq> [] then '' [flags]'' else [])"
  by (simp add: cmdPathF_def countFlags_def matchRegexps_def)

text \<open>
  C2 (amended).  In the \<open>Usage:\<close> block that \<open>usage\<close> writes outside short style, the
  invocation lines carry \<open>[flags]\<close> after the path exactly when the target command
  itself has at least one flag; the flags of its ancestors play no part.
\<close>

theorem usage_flags_token:
  assumes "path \<noteq> []" and "style config \<noteq> styleShort"
  shows "let invocation = ''   '' @ pathName X (prefix X (env config)) path
                          @ (if Flags (last path) \<noteq> [] then '' [flags]'' else [])
         in \<exists>pre post. usage X G config ww path fc =
              Some (pre
                    @ [Write (''Usage:'' @ NL)]
                    @ (if Runner (last path) \<noteq> None
                       then [Write (invocation
                                    @ (if ArgsName (last path) \<noteq> [] then '' '' @ ArgsName (last path) else [])
                                    @ NL)]
                       else [])
                    @ (if subCmdsOf X config (last path) \<noteq> [] \<or> Children (last path) \<noteq> []
                       then [Write (invocation @ '' <command>'' @ NL)]
                       else [])
                    @ post)"
proof -
  let ?cmd = "last path" and ?cmdPath = "pathName X (prefix X (env config)) path"
  let ?subCmds = "subCmdsOf X config (last path)"
  have "usage X G config ww path fc =
      Some (usageHeader X config ww ?cmd ?cmdPath fc
            @ usageLine ?cmd ?cmdPath ?subCmds
            @ (commandTable X config path ?cmd ?cmdPath ?subCmds fc @ argsSection ?cmd
               @ topicTable config ?cmd ?cmdPath fc @ flagsUsage X G config path fc))"
    using assms by (simp add: usage_def Let_def)
  moreover have "usageLine ?cmd ?cmdPath ?subCmds =
      [Write (''Usage:'' @ NL)]
      @ (if Runner ?cmd \<noteq> None
         then [Write ((''   '' @ ?cmdPath @ (if Flags ?cmd \<noteq> [] then '' [flags]'' else []))
                      @ (if ArgsName ?cmd \<noteq> [] then '' '' @ ArgsName ?cmd else []) @ NL)]
         else [])
      @ (if ?subCmds \<noteq> [] \<or> Children ?cmd \<noteq> []
         then [Write ((''   '' @ ?cmdPath @ (if Flags ?cmd \<noteq> [] then '' [flags]'' else [])) @ '' <command>'' @ NL)]
         else [])"
    by (simp add: usageLine_def cmdPathF_own_flags Sprintln_def)
  ultimately show ?thesis
    unfolding Let_def by (metis append.assoc)
qed

theorem usage_flags_token_witness:
  \<open>\<exists>pre post. usage testExtern testGlobals testConfig 20 [rootCmd] True =
      Some (pre @ [Write (''Usage:'' @ NL), Write (''   root [flags] <command>'' @ NL)] @ post)\<close>
  using usage_flags_token [of "[rootCmd]" testConfig testExtern testGlobals 20 True]
  by (simp add: rootCmd_def testConfig_def testExtern_def verboseFlag_def Let_def)

text \<open>
  The command \<open>root\<close> has a flag and its child \<open>build\<close> has none: the usage line of
  \<open>root build\<close> has no \<open>[flags]\<close>.
\<close>

theorem usage_flags_token_counterexample:
  \<open>0 < countFlags (Flags rootCmd) None True
   \<and> countFlags (Flags buildCmd) None True = 0
   \<and> usage testExtern testGlobals testConfig 20 [rootCmd, buildCmd] True =
       Some [Write (''Build builds.'' @ NL), Write NL, Write (''Usage:'' @ NL), Write (''   root build'' @ NL)]\<close>
  by (simp add: render_defs fixture_defs)

section \<open>The rows of the discovered binaries\<close>

text \<open>
  C3 (amended).  Outside short style the sub-command table has a row for every
  discovered binary.  The binary runs with both streams captured in one buffer, with
  \<open>CMDLINE_STYLE=short\<close> and the argument \<open>-help\<close>; the row shows the name with the
  prefix of the parent stripped and, as description, the whole captured output when the
  run succeeds and \<open>No description available\<close> when it fails.
\<close>

theorem binary_row:
  assumes "path \<noteq> []" and "style config \<noteq> styleShort"
    and "subCmd \<in> set (subCmdsOf X config (last path))"
  shows "let r = runBinary X subCmd (pathName X (prefix X (env config)) path)
                   ((env config)\<lparr>Stdout := Buffer, Stderr := Buffer,
                                  Vars := (Vars (env config))(''CMDLINE_STYLE'' \<mapsto> ''short'')\<rparr>)
                   [''-help'']
         in \<exists>pre post. usage X G config ww path fc =
              Some (pre
                    @ [Write (padRight (nameWidth (last path) (subCmdsOf X config (last path)))
                                (TrimPrefix subCmd (Name (last path) @ ''-''))
                              @ '' ''
                              @ (if proc_err r = None then concat (map snd (proc_out r))
                                 else ''No description available'')),
                       Flush]
                    @ post)"
proof -
  let ?cmd = "last path" and ?cmdPath = "pathName X (prefix X (env config)) path"
  let ?subCmds = "subCmdsOf X config (last path)"
  let ?wid = "nameWidth ?cmd ?subCmds"
  obtain before after where split: "?subCmds = before @ subCmd # after"
    using assms(3) by (meson split_list)
  let ?tableStart = "(if 0 < length ?subCmds \<or> 0 < length (Children ?cmd) then commandHeader ?cmdPath ?wid else [])
       @ concat (map (\<lambda>child. printShort ?wid (Name child) (Short child)) (Children ?cmd))
       @ concat (map (binaryRow X config ?cmd ?cmdPath ?wid) before)"
  let ?tableEnd = "concat (map (binaryRow X config ?cmd ?cmdPath ?wid) after)
         @ (if fc \<and> needsHelpChild ?cmd
            then printShort ?wid (Name (newCommand X path config)) (Short (newCommand X path config))
            else [])
         @ (if 0 < length ?subCmds \<or> 0 < length (Children ?cmd) then commandFooter config ?cmdPath fc else [])"
  have rows: "concat (map (binaryRow X config ?cmd ?cmdPath ?wid) ?subCmds) =
      concat (map (binaryRow X config ?cmd ?cmdPath ?wid) before)
      @ binaryRow X config ?cmd ?cmdPath ?wid subCmd
      @ concat (map (binaryRow X config ?cmd ?cmdPath ?wid) after)"
    by (subst split) simp
  have table: "commandTable X config path ?cmd ?cmdPath ?subCmds fc =
      ?tableStart @ binaryRow X config ?cmd ?cmdPath ?wid subCmd @ ?tableEnd"
    unfolding commandTable_def Let_def rows by simp
  have "usage X G config ww path fc =
      Some (usageHeader X config ww ?cmd ?cmdPath fc @ usageLine ?cmd ?cmdPath ?subCmds
            @ commandTable X config path ?cmd ?cmdPath ?subCmds fc
            @ argsSection ?cmd @ topicTable config ?cmd ?cmdPath fc @ flagsUsage X G config path fc)"
    using assms(1,2) by (simp add: usage_def Let_def)
  then have "usage X G config ww path fc =
      Some ((usageHeader X config ww ?cmd ?cmdPath fc @ usageLine ?cmd ?cmdPath ?subCmds @ ?tableStart)
            @ binaryRow X config ?cmd ?cmdPath ?wid subCmd
            @ (?tableEnd @ argsSection ?cmd @ topicTable config ?cmd ?cmdPath fc
               @ flagsUsage X G config path fc))"
    unfolding table by (simp only: append_assoc)
  then have "\<exists>pre post. usage X G config ww path fc =
      Some (pre @ binaryRow X config ?cmd ?cmdPath ?wid subCmd @ post)"
    by blast
  moreover have "binaryRow X config ?cmd ?cmdPath ?wid subCmd =
      [Write (padRight ?wid (TrimPrefix subCmd (Name ?cmd @ ''-'')) @ '' ''
              @ (if proc_err (runBinary X subCmd ?cmdPath
                      ((env config)\<lparr>Stdout := Buffer, Stderr := Buffer,
                                     Vars := (Vars (env config))(''CMDLINE_STYLE'' \<mapsto> ''short'')\<rparr>)
                      [''-help'']) = None
                 then concat (map snd (proc_out (runBinary X subCmd ?cmdPath
                      ((env config)\<lparr>Stdout := Buffer, Stderr := Buffer,
                                     Vars := (Vars (env config))(''CMDLINE_STYLE'' \<mapsto> ''short'')\<rparr>)
                      [''-help''])))
                 else ''No description available'')),
       Flush]"
    by (simp add: binaryRow_def printShort_def SprintfRow_def shortEnv_def captured_def
        missingDescription_def Let_def)
  ultimately show ?thesis
    unfolding Let_def by (simp only:)
qed

theorem binary_row_witness:
  \<open>\<exists>pre post. usage testExtern testGlobals testConfig 20 [rootCmd] False =
      Some (pre @ [Write (''extra       Extra tools'' @ NL @ ''second line'' @ NL), Flush] @ post)\<close>
  using binary_row [of "[rootCmd]" testConfig "''root-extra''" testExtern testGlobals 20 False]
  by (simp add: rootCmd_def buildCmd_def testConfig_def testEnv_def subCmdsOf_def testExtern_def
      nameWidth_def minNameWidth_def TrimPrefix_def padRight_def tooLarge_def spaces_def Let_def
      DecodeRuneInString.simps contByte_def replicate_numeral)

text \<open>
  The binary \<open>root-extra\<close> answers with one line on each stream: the row holds both
  lines, not the first one.
\<close>

theorem binary_row_counterexample:
  \<open>firstLine (captured (runBinary testExtern ''root-extra'' ''root'' (shortEnv testConfig) [''-help'']))
     = ''Extra tools''
   \<and> usage testExtern testGlobals testConfig 20 [rootCmd] True =
       Some [Write (''Root is the tool.'' @ NL), Write NL, Write (''Usage:'' @ NL),
             Write (''   root [flags] <command>'' @ NL), Write NL, Write (''The root commands are:'' @ NL),
             SetIndents [''   '', ''               ''],
             Write ''build       Build it'', Flush,
             Write (''extra       Extra tools'' @ NL @ ''second line'' @ NL), Flush,
             Write ''help        Display help for commands or topics'', Flush,
             SetIndents [], Write (''Run "root help [command]" for command usage.'' @ NL),
             Write NL, Write (''The root additional help topics are:'' @ NL),
             SetIndents [''   '', ''               ''],
             Write ''guide       A guide'', Flush,
             SetIndents [], Write (''Run "root help [topic]" for topic details.'' @ NL),
             Write NL, Write (''The root flags are:'' @ NL),
             Write '' -v=false'', SetIndents [''   ''], Write (''Verbose.'' @ NL), SetIndents []]\<close>
  by (simp add: render_defs fixture_defs firstLine_def)

end
